theory Spec2Isabelle
  imports Main
begin

section \<open>Expressions\<close>

text \<open>
  Modelled from the spec: the classes of \<^verbatim>\<open>snuba/query/expressions.py\<close> are not under
  src/. Section 3 lists the variants and their fields; the seven below are the ones
  \<^verbatim>\<open>snuba/clickhouse/translator/rulesbased.py\<close> imports and has a rule list for (the
  naming wrapper \<^verbatim>\<open>AliasedExpression\<close> is not among them). The constructors take their
  arguments in the order the source passes them positionally; for a column that is
  \<^verbatim>\<open>(alias, table_name, column_name)\<close> in \<^verbatim>\<open>uuid_column_processor.py\<close> and in the
  specification, while the tests write \<^verbatim>\<open>Column(alias, column_name, table_name)\<close>.
  Python does not check the annotated field types at run time, so the inner function of a
  \<^verbatim>\<open>CurriedFunctionCall\<close> and the column and key of a \<^verbatim>\<open>SubscriptableReference\<close>
  are plain expressions here; what the annotations ask for is the predicate \<open>wf\<close> below.
  A literal holds a scalar: \<^verbatim>\<open>None\<close>, a boolean, an integer, a string or a sequence of
  scalars (floats and dates are left out).
\<close>

type_synonym node_alias = "string option"

datatype lit_value =
    VNone
  | VBool bool
  | VInt int
  | VStr string
  | VSeq "lit_value list"

datatype exp =
    Column node_alias "string option" "string option"
  | Literal node_alias lit_value
  | Argument node_alias string
  | FunctionCall node_alias string "exp list"
  | CurriedFunctionCall node_alias exp "exp list"
  | SubscriptableReference node_alias exp exp
  | Lambda node_alias "string list" exp

fun is_Column :: "exp \<Rightarrow> bool" where
  "is_Column (Column a t c) = True"
| "is_Column e = False"

fun is_Literal :: "exp \<Rightarrow> bool" where
  "is_Literal (Literal a v) = True"
| "is_Literal e = False"

fun is_FunctionCall :: "exp \<Rightarrow> bool" where
  "is_FunctionCall (FunctionCall a n ps) = True"
| "is_FunctionCall e = False"

fun is_CurriedFunctionCall :: "exp \<Rightarrow> bool" where
  "is_CurriedFunctionCall (CurriedFunctionCall a f ps) = True"
| "is_CurriedFunctionCall e = False"

text \<open>The field types of the annotations: what a well-typed caller hands to the translator.\<close>

fun wf :: "exp \<Rightarrow> bool" where
  "wf (Column a t c) = True"
| "wf (Literal a v) = True"
| "wf (Argument a n) = True"
| "wf (FunctionCall a n ps) = list_all wf ps"
| "wf (CurriedFunctionCall a f ps) = (is_FunctionCall f \<and> wf f \<and> list_all wf ps)"
| "wf (SubscriptableReference a c k) = (is_Column c \<and> is_Literal k)"
| "wf (Lambda a ns b) = wf b"

fun height :: "exp \<Rightarrow> nat" where
  "height (Column a t c) = 1"
| "height (Literal a v) = 1"
| "height (Argument a n) = 1"
| "height (FunctionCall a n ps) = Suc (foldr max (map height ps) 0)"
| "height (CurriedFunctionCall a f ps) = Suc (max (height f) (foldr max (map height ps) 0))"
| "height (SubscriptableReference a c k) = Suc (max (height c) (height k))"
| "height (Lambda a ns b) = Suc (height b)"

section \<open>The rule based translator\<close>

text \<open>
  Every \<^verbatim>\<open>raise\<close> is a value. \<open>CannotMapExpression\<close> is the \<^verbatim>\<open>ValueError\<close> at the end
  of \<^verbatim>\<open>__map_expression\<close>, \<open>AssertionError\<close> a failed \<^verbatim>\<open>assert isinstance\<close>,
  \<open>AttributeError\<close> a read of a field the node does not have, and \<open>RecursionError\<close>
  what Python raises when the nesting of calls exceeds its limit (the fuel of
  \<open>translate\<close>). The processors add \<open>UsageError\<close> (a capture asked for under a name the
  match did not record), \<open>UnpackError\<close> (a sequence unpacked into the wrong number of
  names) and \<open>ProjectIdsError\<close> (whatever \<^verbatim>\<open>get_project_ids_in_query\<close> raises).
\<close>

datatype error =
    CannotMapExpression exp
  | AssertionError
  | AttributeError
  | RecursionError
  | UsageError
  | UnpackError
  | ProjectIdsError

datatype node_kind =
    KColumn
  | KLiteral
  | KFunctionCall
  | KCurriedFunctionCall
  | KSubscriptableReference
  | KLambda
  | KArgument

text \<open>
  The translator object a rule receives as \<^verbatim>\<open>children_translator\<close>: one method per node
  kind (\<^verbatim>\<open>translate_column\<close>, \<^verbatim>\<open>translate_literal\<close>, ...). A rule is
  \<^verbatim>\<open>attempt_map(expression, children_translator) -> Optional[TExpOut]\<close>.
\<close>

type_synonym translator = "node_kind \<Rightarrow> exp \<Rightarrow> error + exp"

type_synonym rule = "exp \<Rightarrow> translator \<Rightarrow> error + exp option"

record TranslationRules =
  columns :: "rule list"
  literals :: "rule list"
  "functions" :: "rule list"
  curried_functions :: "rule list"
  subscriptables :: "rule list"
  lambdas :: "rule list"
  arguments :: "rule list"

definition concat_rules :: "TranslationRules \<Rightarrow> TranslationRules \<Rightarrow> TranslationRules" where
  "concat_rules self spec =
     \<lparr> columns = columns self @ columns spec,
       literals = literals self @ literals spec,
       functions = functions self @ functions spec,
       curried_functions = curried_functions self @ curried_functions spec,
       subscriptables = subscriptables self @ subscriptables spec,
       lambdas = lambdas self @ lambdas spec,
       arguments = arguments self @ arguments spec \<rparr>"

fun kind_of :: "exp \<Rightarrow> node_kind" where
  "kind_of (Column a t c) = KColumn"
| "kind_of (Literal a v) = KLiteral"
| "kind_of (Argument a n) = KArgument"
| "kind_of (FunctionCall a n ps) = KFunctionCall"
| "kind_of (CurriedFunctionCall a f ps) = KCurriedFunctionCall"
| "kind_of (SubscriptableReference a c k) = KSubscriptableReference"
| "kind_of (Lambda a ns b) = KLambda"

text \<open>
  Modelled from the spec: \<^verbatim>\<open>translate_expression\<close> is called by the default rules but
  defined in a base class that is not under src/. Section 4.4 of the specification
  describes it: a node is dispatched to the rule list of its own kind.
\<close>

definition translate_expression :: "translator \<Rightarrow> exp \<Rightarrow> error + exp" where
  "translate_expression t e = t (kind_of e) e"

text \<open>\<^verbatim>\<open>tuple(f(p) for p in parameters)\<close>: left to right, the first exception ends it.\<close>

fun translate_all :: "(exp \<Rightarrow> error + exp) \<Rightarrow> exp list \<Rightarrow> error + exp list" where
  "translate_all f [] = Inr []"
| "translate_all f (p # ps) =
     (case f p of
        Inl err \<Rightarrow> Inl err
      | Inr p' \<Rightarrow>
          (case translate_all f ps of
             Inl err \<Rightarrow> Inl err
           | Inr ps' \<Rightarrow> Inr (p' # ps')))"

text \<open>\<^verbatim>\<open>deepcopy\<close> returns an equal value; object identity is the subject of a later section.\<close>

definition DefaultColumnMapper :: rule where
  "DefaultColumnMapper expression children_translator = Inr (Some expression)"

definition DefaultLiteralMapper :: rule where
  "DefaultLiteralMapper expression children_translator = Inr (Some expression)"

definition DefaultArgumentMapper :: rule where
  "DefaultArgumentMapper expression children_translator = Inr (Some expression)"

fun DefaultFunctionMapper :: rule where
  "DefaultFunctionMapper (FunctionCall a n ps) children_translator =
     (case translate_all (translate_expression children_translator) ps of
        Inl err \<Rightarrow> Inl err
      | Inr ps' \<Rightarrow> Inr (Some (FunctionCall a n ps')))"
| "DefaultFunctionMapper expression children_translator = Inr None"

fun DefaultCurriedFunctionMapper :: rule where
  "DefaultCurriedFunctionMapper (CurriedFunctionCall a f ps) children_translator =
     (case children_translator KFunctionCall f of
        Inl err \<Rightarrow> Inl err
      | Inr f' \<Rightarrow>
          (case translate_all (translate_expression children_translator) ps of
             Inl err \<Rightarrow> Inl err
           | Inr ps' \<Rightarrow> Inr (Some (CurriedFunctionCall a f' ps'))))"
| "DefaultCurriedFunctionMapper expression children_translator = Inr None"

fun DefaultSubscriptableMapper :: rule where
  "DefaultSubscriptableMapper (SubscriptableReference a c k) children_translator =
     (case children_translator KColumn c of
        Inl err \<Rightarrow> Inl err
      | Inr column \<Rightarrow>
          if \<not> is_Column column then Inl AssertionError
          else
            (case children_translator KLiteral k of
               Inl err \<Rightarrow> Inl err
             | Inr key \<Rightarrow>
                 if \<not> is_Literal key then Inl AssertionError
                 else Inr (Some (SubscriptableReference a column key))))"
| "DefaultSubscriptableMapper expression children_translator = Inl AttributeError"

fun DefaultLambdaMapper :: rule where
  "DefaultLambdaMapper (Lambda a ns b) children_translator =
     (case translate_expression children_translator b of
        Inl err \<Rightarrow> Inl err
      | Inr b' \<Rightarrow> Inr (Some (Lambda a ns b')))"
| "DefaultLambdaMapper expression children_translator = Inl AttributeError"

definition default_rules :: TranslationRules where
  "default_rules =
     \<lparr> columns = [DefaultColumnMapper],
       literals = [DefaultLiteralMapper],
       functions = [DefaultFunctionMapper],
       curried_functions = [DefaultCurriedFunctionMapper],
       subscriptables = [DefaultSubscriptableMapper],
       lambdas = [DefaultLambdaMapper],
       arguments = [DefaultArgumentMapper] \<rparr>"

text \<open>\<^verbatim>\<open>__init__\<close>: the rules the translator keeps are the caller's followed by the defaults.\<close>

definition SnubaClickhouseRulesTranslator :: "TranslationRules \<Rightarrow> TranslationRules" where
  "SnubaClickhouseRulesTranslator translation_rules = concat_rules translation_rules default_rules"

fun map_expression :: "exp \<Rightarrow> rule list \<Rightarrow> translator \<Rightarrow> error + exp" where
  "map_expression e [] self = Inl (CannotMapExpression e)"
| "map_expression e (r # rules) self =
     (case r e self of
        Inl err \<Rightarrow> Inl err
      | Inr None \<Rightarrow> map_expression e rules self
      | Inr (Some ret) \<Rightarrow> Inr ret)"

fun rules_of :: "TranslationRules \<Rightarrow> node_kind \<Rightarrow> rule list" where
  "rules_of rs KColumn = columns rs"
| "rules_of rs KLiteral = literals rs"
| "rules_of rs KFunctionCall = functions rs"
| "rules_of rs KCurriedFunctionCall = curried_functions rs"
| "rules_of rs KSubscriptableReference = subscriptables rs"
| "rules_of rs KLambda = lambdas rs"
| "rules_of rs KArgument = arguments rs"

text \<open>
  The methods \<^verbatim>\<open>translate_column\<close>, ..., \<^verbatim>\<open>translate_argument\<close> of a translator whose
  private rules are \<open>rs\<close>: \<open>translate n rs k\<close> is the method for kind \<open>k\<close>, with room for
  \<open>n\<close> nested calls. Each method passes the translator itself to the rules.
\<close>

fun translate :: "nat \<Rightarrow> TranslationRules \<Rightarrow> translator" where
  "translate 0 rs k e = Inl RecursionError"
| "translate (Suc n) rs k e = map_expression e (rules_of rs k) (translate n rs)"

text \<open>
  What the annotations of the entry points ask of their argument: a node of the kind the
  method is written for, with well-typed fields.
\<close>

definition accepts :: "node_kind \<Rightarrow> exp \<Rightarrow> bool" where
  "accepts k e = (kind_of e = k \<and> wf e)"

text \<open>
  The contract of \<^verbatim>\<open>ExpressionMapper\<close> (\<^verbatim>\<open>snuba/datasets/plans/translator/mapper.py\<close>):
  "An ExpressionMapper should not throw under any circumstance." A rule registered for
  kind \<open>k\<close> keeps it when the only exceptions that leave it are those the children
  translator raised on a call the annotations allow.
\<close>

definition never_throws :: "node_kind \<Rightarrow> rule \<Rightarrow> bool" where
  "never_throws k r =
     (\<forall>e t err. accepts k e \<longrightarrow> r e t = Inl err \<longrightarrow>
        (\<exists>k' e'. accepts k' e' \<and> t k' e' = Inl err))"

definition rules_never_throw :: "TranslationRules \<Rightarrow> bool" where
  "rules_never_throw rs = (\<forall>k. \<forall>r\<in>set (rules_of rs k). never_throws k r)"

text \<open>\<^verbatim>\<open>TranslationRules()\<close>: every list defaults to the empty list.\<close>

definition no_rules :: TranslationRules where
  "no_rules =
     \<lparr> columns = [], literals = [], functions = [], curried_functions = [],
       subscriptables = [], lambdas = [], arguments = [] \<rparr>"

subsection \<open>Rules a caller may register\<close>

text \<open>
  The column rule of \<^verbatim>\<open>tests/clickhouse/translator/test_translation.py\<close>,
  \<^verbatim>\<open>ColumnMapper("col", None, "col2", None)\<close>: it renames the column it is written for
  and declines every other node. The tests build columns as
  \<^verbatim>\<open>Column(alias, column_name, table_name)\<close>.
\<close>

definition ColumnMapper :: "string \<Rightarrow> string option \<Rightarrow> string \<Rightarrow> string option \<Rightarrow> rule" where
  "ColumnMapper from_col_name from_table_name to_col_name to_table_name
       expression children_translator =
     (case expression of
        Column a c tb \<Rightarrow>
          if c = Some from_col_name \<and> tb = from_table_name
          then Inr (Some (Column a (Some to_col_name) to_table_name))
          else Inr None
      | _ \<Rightarrow> Inr None)"

text \<open>
  Two more rules of the shapes the annotations of the translator allow or Python lets
  through: \<^verbatim>\<open>translate_column\<close> is annotated \<^verbatim>\<open>Union[Column, Literal, FunctionCall]\<close>, so
  a column rule may answer with a literal; a function rule that answers with a column is
  what the docstring of \<^verbatim>\<open>SnubaClickhouseStrictTranslator\<close> warns about.
\<close>

definition ColumnToLiteral :: "string \<Rightarrow> lit_value \<Rightarrow> rule" where
  "ColumnToLiteral col_name v expression children_translator =
     (case expression of
        Column a c tb \<Rightarrow> if c = Some col_name then Inr (Some (Literal a v)) else Inr None
      | _ \<Rightarrow> Inr None)"


text \<open>
  What the annotations promise of the answers of a rule: \<^verbatim>\<open>translate_function_call\<close> is
  annotated \<^verbatim>\<open>-> FunctionCall\<close>, \<^verbatim>\<open>translate_curried_function_call\<close> is annotated
  \<^verbatim>\<open>-> CurriedFunctionCall\<close>, whose inner function is a function call.
\<close>

fun has_function_inside :: "exp \<Rightarrow> bool" where
  "has_function_inside (CurriedFunctionCall a f ps) = is_FunctionCall f"
| "has_function_inside e = False"

definition answers_with :: "(exp \<Rightarrow> bool) \<Rightarrow> rule \<Rightarrow> bool" where
  "answers_with P r = (\<forall>e t x. r e t = Inr (Some x) \<longrightarrow> P x)"

section \<open>Object identity\<close>

text \<open>
  \<^verbatim>\<open>deepcopy\<close>, \<^verbatim>\<open>dataclasses.replace\<close> and a constructor call each make a new
  object. To speak about \<^verbatim>\<open>is\<close>, a node carries the identity of its object, and the
  state threaded through the translation is the next identity the allocator hands out:
  every object that exists has a smaller one.
\<close>

type_synonym obj_id = nat

datatype obj =
    OColumn obj_id node_alias "string option" "string option"
  | OLiteral obj_id node_alias lit_value
  | OArgument obj_id node_alias string
  | OFunctionCall obj_id node_alias string "obj list"
  | OCurriedFunctionCall obj_id node_alias obj "obj list"
  | OSubscriptableReference obj_id node_alias obj obj
  | OLambda obj_id node_alias "string list" obj

fun id_of :: "obj \<Rightarrow> obj_id" where
  "id_of (OColumn i a t c) = i"
| "id_of (OLiteral i a v) = i"
| "id_of (OArgument i a n) = i"
| "id_of (OFunctionCall i a n ps) = i"
| "id_of (OCurriedFunctionCall i a f ps) = i"
| "id_of (OSubscriptableReference i a c k) = i"
| "id_of (OLambda i a ns b) = i"

text \<open>The value of an object, which is what \<^verbatim>\<open>==\<close> on the dataclasses compares.\<close>

fun value_of :: "obj \<Rightarrow> exp" where
  "value_of (OColumn i a t c) = Column a t c"
| "value_of (OLiteral i a v) = Literal a v"
| "value_of (OArgument i a n) = Argument a n"
| "value_of (OFunctionCall i a n ps) = FunctionCall a n (map value_of ps)"
| "value_of (OCurriedFunctionCall i a f ps) =
     CurriedFunctionCall a (value_of f) (map value_of ps)"
| "value_of (OSubscriptableReference i a c k) =
     SubscriptableReference a (value_of c) (value_of k)"
| "value_of (OLambda i a ns b) = Lambda a ns (value_of b)"

text \<open>The identities of all the objects of a tree.\<close>

fun ids :: "obj \<Rightarrow> obj_id set" where
  "ids (OColumn i a t c) = {i}"
| "ids (OLiteral i a v) = {i}"
| "ids (OArgument i a n) = {i}"
| "ids (OFunctionCall i a n ps) = insert i (\<Union> (set (map ids ps)))"
| "ids (OCurriedFunctionCall i a f ps) = insert i (ids f \<union> \<Union> (set (map ids ps)))"
| "ids (OSubscriptableReference i a c k) = insert i (ids c \<union> ids k)"
| "ids (OLambda i a ns b) = insert i (ids b)"

text \<open>
  Modelled from the spec: the iteration over the nodes of an expression, which
  \<^verbatim>\<open>test_default_translation\<close> zips, is defined in \<^verbatim>\<open>snuba/query/expressions.py\<close>,
  not under src/. Sections 3 and 4.1: a pre-order sequence of all descendant expressions,
  the node itself included, children left to right in the order of the fields.
\<close>

fun nodes :: "obj \<Rightarrow> obj list" where
  "nodes (OColumn i a t c) = [OColumn i a t c]"
| "nodes (OLiteral i a v) = [OLiteral i a v]"
| "nodes (OArgument i a n) = [OArgument i a n]"
| "nodes (OFunctionCall i a n ps) = OFunctionCall i a n ps # concat (map nodes ps)"
| "nodes (OCurriedFunctionCall i a f ps) =
     OCurriedFunctionCall i a f ps # nodes f @ concat (map nodes ps)"
| "nodes (OSubscriptableReference i a c k) =
     OSubscriptableReference i a c k # nodes c @ nodes k"
| "nodes (OLambda i a ns b) = OLambda i a ns b # nodes b"

text \<open>
  \<^verbatim>\<open>copy.deepcopy\<close> of a node: a new object for the node. The default rules hand it
  leaves; below a node it copies the children too.
\<close>

fun deepcopy :: "obj \<Rightarrow> obj_id \<Rightarrow> obj \<times> obj_id"
  and deepcopy_all :: "obj list \<Rightarrow> obj_id \<Rightarrow> obj list \<times> obj_id" where
  "deepcopy (OColumn i a t c) h = (OColumn h a t c, Suc h)"
| "deepcopy (OLiteral i a v) h = (OLiteral h a v, Suc h)"
| "deepcopy (OArgument i a n) h = (OArgument h a n, Suc h)"
| "deepcopy (OFunctionCall i a n ps) h =
     (case deepcopy_all ps (Suc h) of (ps', h1) \<Rightarrow> (OFunctionCall h a n ps', h1))"
| "deepcopy (OCurriedFunctionCall i a f ps) h =
     (case deepcopy f (Suc h) of
        (f', h1) \<Rightarrow>
          (case deepcopy_all ps h1 of (ps', h2) \<Rightarrow> (OCurriedFunctionCall h a f' ps', h2)))"
| "deepcopy (OSubscriptableReference i a c k) h =
     (case deepcopy c (Suc h) of
        (c', h1) \<Rightarrow>
          (case deepcopy k h1 of (k', h2) \<Rightarrow> (OSubscriptableReference h a c' k', h2)))"
| "deepcopy (OLambda i a ns b) h =
     (case deepcopy b (Suc h) of (b', h1) \<Rightarrow> (OLambda h a ns b', h1))"
| "deepcopy_all [] h = ([], h)"
| "deepcopy_all (p # ps) h =
     (case deepcopy p h of
        (p', h1) \<Rightarrow> (case deepcopy_all ps h1 of (ps', h2) \<Rightarrow> (p' # ps', h2)))"

type_synonym translator_obj = "node_kind \<Rightarrow> obj \<Rightarrow> obj_id \<Rightarrow> (error + obj) \<times> obj_id"

type_synonym rule_obj = "obj \<Rightarrow> translator_obj \<Rightarrow> obj_id \<Rightarrow> (error + obj option) \<times> obj_id"

definition translate_expression_obj ::
  "translator_obj \<Rightarrow> obj \<Rightarrow> obj_id \<Rightarrow> (error + obj) \<times> obj_id" where
  "translate_expression_obj t e = t (kind_of (value_of e)) e"

fun translate_all_obj ::
  "(obj \<Rightarrow> obj_id \<Rightarrow> (error + obj) \<times> obj_id) \<Rightarrow> obj list \<Rightarrow> obj_id
     \<Rightarrow> (error + obj list) \<times> obj_id" where
  "translate_all_obj f [] h = (Inr [], h)"
| "translate_all_obj f (p # ps) h =
     (case f p h of
        (Inl err, h1) \<Rightarrow> (Inl err, h1)
      | (Inr p', h1) \<Rightarrow>
          (case translate_all_obj f ps h1 of
             (Inl err, h2) \<Rightarrow> (Inl err, h2)
           | (Inr ps', h2) \<Rightarrow> (Inr (p' # ps'), h2)))"

definition DefaultColumnMapper_obj :: rule_obj where
  "DefaultColumnMapper_obj expression children_translator h =
     (case deepcopy expression h of (copy, h1) \<Rightarrow> (Inr (Some copy), h1))"

definition DefaultLiteralMapper_obj :: rule_obj where
  "DefaultLiteralMapper_obj expression children_translator h =
     (case deepcopy expression h of (copy, h1) \<Rightarrow> (Inr (Some copy), h1))"

definition DefaultArgumentMapper_obj :: rule_obj where
  "DefaultArgumentMapper_obj expression children_translator h =
     (case deepcopy expression h of (copy, h1) \<Rightarrow> (Inr (Some copy), h1))"

fun DefaultFunctionMapper_obj :: rule_obj where
  "DefaultFunctionMapper_obj (OFunctionCall i a n ps) children_translator h =
     (case translate_all_obj (translate_expression_obj children_translator) ps h of
        (Inl err, h1) \<Rightarrow> (Inl err, h1)
      | (Inr ps', h1) \<Rightarrow> (Inr (Some (OFunctionCall h1 a n ps')), Suc h1))"
| "DefaultFunctionMapper_obj expression children_translator h = (Inr None, h)"

fun DefaultCurriedFunctionMapper_obj :: rule_obj where
  "DefaultCurriedFunctionMapper_obj (OCurriedFunctionCall i a f ps) children_translator h =
     (case children_translator KFunctionCall f h of
        (Inl err, h1) \<Rightarrow> (Inl err, h1)
      | (Inr f', h1) \<Rightarrow>
          (case translate_all_obj (translate_expression_obj children_translator) ps h1 of
             (Inl err, h2) \<Rightarrow> (Inl err, h2)
           | (Inr ps', h2) \<Rightarrow> (Inr (Some (OCurriedFunctionCall h2 a f' ps')), Suc h2)))"
| "DefaultCurriedFunctionMapper_obj expression children_translator h = (Inr None, h)"

fun DefaultSubscriptableMapper_obj :: rule_obj where
  "DefaultSubscriptableMapper_obj (OSubscriptableReference i a c k) children_translator h =
     (case children_translator KColumn c h of
        (Inl err, h1) \<Rightarrow> (Inl err, h1)
      | (Inr column, h1) \<Rightarrow>
          if \<not> is_Column (value_of column) then (Inl AssertionError, h1)
          else
            (case children_translator KLiteral k h1 of
               (Inl err, h2) \<Rightarrow> (Inl err, h2)
             | (Inr key, h2) \<Rightarrow>
                 if \<not> is_Literal (value_of key) then (Inl AssertionError, h2)
                 else (Inr (Some (OSubscriptableReference h2 a column key)), Suc h2)))"
| "DefaultSubscriptableMapper_obj expression children_translator h = (Inl AttributeError, h)"

fun DefaultLambdaMapper_obj :: rule_obj where
  "DefaultLambdaMapper_obj (OLambda i a ns b) children_translator h =
     (case translate_expression_obj children_translator b h of
        (Inl err, h1) \<Rightarrow> (Inl err, h1)
      | (Inr b', h1) \<Rightarrow> (Inr (Some (OLambda h1 a ns b')), Suc h1))"
| "DefaultLambdaMapper_obj expression children_translator h = (Inl AttributeError, h)"

fun default_rules_obj :: "node_kind \<Rightarrow> rule_obj list" where
  "default_rules_obj KColumn = [DefaultColumnMapper_obj]"
| "default_rules_obj KLiteral = [DefaultLiteralMapper_obj]"
| "default_rules_obj KFunctionCall = [DefaultFunctionMapper_obj]"
| "default_rules_obj KCurriedFunctionCall = [DefaultCurriedFunctionMapper_obj]"
| "default_rules_obj KSubscriptableReference = [DefaultSubscriptableMapper_obj]"
| "default_rules_obj KLambda = [DefaultLambdaMapper_obj]"
| "default_rules_obj KArgument = [DefaultArgumentMapper_obj]"

fun map_expression_obj ::
  "obj \<Rightarrow> rule_obj list \<Rightarrow> translator_obj \<Rightarrow> obj_id \<Rightarrow> (error + obj) \<times> obj_id" where
  "map_expression_obj e [] self h = (Inl (CannotMapExpression (value_of e)), h)"
| "map_expression_obj e (r # rules) self h =
     (case r e self h of
        (Inl err, h1) \<Rightarrow> (Inl err, h1)
      | (Inr None, h1) \<Rightarrow> map_expression_obj e rules self h1
      | (Inr (Some ret), h1) \<Rightarrow> (Inr ret, h1))"

text \<open>
  The translator of \<^verbatim>\<open>test_default_translation\<close>: every list of the caller's rules is
  empty, so the list of each kind is \<open>[] @\<close> the default rule of that kind.
\<close>

fun translate_obj :: "nat \<Rightarrow> translator_obj" where
  "translate_obj 0 k e h = (Inl RecursionError, h)"
| "translate_obj (Suc n) k e h =
     map_expression_obj e ([] @ default_rules_obj k) (translate_obj n) h"

text \<open>A translator over objects and one over values that agree on every call.\<close>

definition same_translator :: "translator_obj \<Rightarrow> translator \<Rightarrow> bool" where
  "same_translator t g = (\<forall>k p h. map_sum id value_of (fst (t k p h)) = g k (value_of p))"

section \<open>The structural matcher\<close>

text \<open>
  Modelled from the spec: \<^verbatim>\<open>snuba/query/matchers.py\<close> is not under src/; only its use
  in \<^verbatim>\<open>uuid_column_processor.py\<close> is. The constructors are the ones that file calls,
  with the arguments it passes; their meaning is section 4.2 of the specification:
  \<^item> \<^verbatim>\<open>String\<close> matches only that string, \<^verbatim>\<open>AnyOptionalString\<close> matches \<^verbatim>\<open>None\<close> or any
    string;
  \<^item> \<^verbatim>\<open>Or\<close> matches if an alternative matches, the first match wins;
  \<^item> \<^verbatim>\<open>Param\<close> records the matched node under its name;
  \<^item> a shape for a variant matches only a node of that variant whose fields satisfy the
    nested descriptors; an absent descriptor (\<^verbatim>\<open>None\<close>) constrains nothing; the nested
    parameter shapes enumerate the positions that are matched, the others are ignored;
  \<^item> \<^verbatim>\<open>with_optionals\<close> makes the alias a "don't care"; the shapes this file builds
    carry no descriptor for the alias, so the alias is never constrained;
  \<^item> any mismatch, a node of another type included, is the result \<^verbatim>\<open>None\<close>.
  A pattern is matched against an expression or against the scalar in a field.
\<close>

datatype node = NExpression exp | NScalar lit_value

datatype pattern =
    String string
  | AnyOptionalString
  | Or "pattern list"
  | Param string pattern
  | ColumnMatch "pattern option" "pattern option"
  | LiteralMatch "pattern option"
  | FunctionCallMatch "pattern option" "pattern list option" bool

type_synonym MatchResult = "string \<rightharpoonup> node"

definition merge :: "MatchResult option \<Rightarrow> MatchResult option \<Rightarrow> MatchResult option" where
  "merge r1 r2 =
     (case r1 of
        None \<Rightarrow> None
      | Some m1 \<Rightarrow> (case r2 of None \<Rightarrow> None | Some m2 \<Rightarrow> Some (m1 ++ m2)))"

definition optional_string :: "string option \<Rightarrow> node" where
  "optional_string s = NScalar (case s of None \<Rightarrow> VNone | Some x \<Rightarrow> VStr x)"

fun match_pattern :: "pattern \<Rightarrow> node \<Rightarrow> MatchResult option"
  and match_any :: "pattern list \<Rightarrow> node \<Rightarrow> MatchResult option"
  and match_field :: "pattern option \<Rightarrow> node \<Rightarrow> MatchResult option"
  and match_parameters :: "pattern list \<Rightarrow> exp list \<Rightarrow> MatchResult option" where
  "match_pattern (String s) n = (if n = NScalar (VStr s) then Some Map.empty else None)"
| "match_pattern AnyOptionalString n =
     (case n of
        NScalar VNone \<Rightarrow> Some Map.empty
      | NScalar (VStr s) \<Rightarrow> Some Map.empty
      | _ \<Rightarrow> None)"
| "match_pattern (Or ps) n = match_any ps n"
| "match_pattern (Param name p) n =
     (case match_pattern p n of None \<Rightarrow> None | Some r \<Rightarrow> Some (r(name \<mapsto> n)))"
| "match_pattern (ColumnMatch table_name column_name) n =
     (case n of
        NExpression (Column a t c) \<Rightarrow>
          merge (match_field table_name (optional_string t))
                (match_field column_name (optional_string c))
      | _ \<Rightarrow> None)"
| "match_pattern (LiteralMatch v) n =
     (case n of
        NExpression (Literal a x) \<Rightarrow> match_field v (NScalar x)
      | _ \<Rightarrow> None)"
| "match_pattern (FunctionCallMatch function_name parameters with_optionals) n =
     (case n of
        NExpression (FunctionCall a f args) \<Rightarrow>
          merge (match_field function_name (NScalar (VStr f)))
                (case parameters of
                   None \<Rightarrow> Some Map.empty
                 | Some ps \<Rightarrow> match_parameters ps args)
      | _ \<Rightarrow> None)"
| "match_any [] n = None"
| "match_any (p # ps) n =
     (case match_pattern p n of Some r \<Rightarrow> Some r | None \<Rightarrow> match_any ps n)"
| "match_field None n = Some Map.empty"
| "match_field (Some p) n = match_pattern p n"
| "match_parameters [] args = Some Map.empty"
| "match_parameters (p # ps) [] = None"
| "match_parameters (p # ps) (a # args) =
     merge (match_pattern p (NExpression a)) (match_parameters ps args)"

text \<open>
  The accessors of a \<^verbatim>\<open>MatchResult\<close>. Section 3: "absent names are a usage error, not a
  silent default".
\<close>

definition contains_name :: "MatchResult \<Rightarrow> string \<Rightarrow> bool" where
  "contains_name result name = (result name \<noteq> None)"

definition expression :: "MatchResult \<Rightarrow> string \<Rightarrow> error + exp" where
  "expression result name =
     (case result name of
        Some (NExpression e) \<Rightarrow> Inr e
      | _ \<Rightarrow> Inl UsageError)"

section \<open>The UUID column processor\<close>

text \<open>
  The names \<^verbatim>\<open>ConditionFunctions.IN\<close>, \<^verbatim>\<open>ConditionFunctions.NOT_IN\<close> and the keys of
  \<^verbatim>\<open>FUNCTION_TO_OPERATOR\<close> are constants of \<^verbatim>\<open>snuba/query/conditions.py\<close>, which is
  not under src/: they are parameters here.
\<close>

record conditions_module =
  ConditionFunctions_IN :: string
  ConditionFunctions_NOT_IN :: string
  FUNCTION_TO_OPERATOR :: "string list"

text \<open>
  Modelled from the spec: \<^verbatim>\<open>binary_condition\<close> and \<^verbatim>\<open>not_in_condition\<close> are functions
  of the same absent module. A condition is the function call the patterns of this
  processor read: the operator as function name, the two sides as parameters, the right
  side of \<^verbatim>\<open>IN\<close> and \<^verbatim>\<open>NOT IN\<close> a call of \<^verbatim>\<open>tuple\<close> (sections 4.5 and 8).
\<close>

definition binary_condition :: "node_alias \<Rightarrow> string \<Rightarrow> exp \<Rightarrow> exp \<Rightarrow> exp" where
  "binary_condition a function_name lhs rhs = FunctionCall a function_name [lhs, rhs]"

definition not_in_condition :: "conditions_module \<Rightarrow> node_alias \<Rightarrow> exp \<Rightarrow> exp list \<Rightarrow> exp" where
  "not_in_condition cm a lhs rhs =
     binary_condition a (ConditionFunctions_NOT_IN cm) lhs (FunctionCall None ''tuple'' rhs)"

record UUIDColumnProcessor =
  uuid_column_match :: pattern
  uuid_in_condition :: pattern
  uuid_condition :: pattern

definition formatted_uuid_pattern :: "pattern \<Rightarrow> string \<Rightarrow> pattern" where
  "formatted_uuid_pattern column_match suffix =
     FunctionCallMatch (Some (String ''replaceAll''))
       (Some [FunctionCallMatch (Some (String ''toString''))
                (Some [Param (''formatted_uuid_column'' @ suffix)
                         (ColumnMatch None (Some column_match))])
                False])
       True"

definition UUIDColumnProcessor_init :: "conditions_module \<Rightarrow> string list \<Rightarrow> UUIDColumnProcessor" where
  "UUIDColumnProcessor_init cm uuid_columns =
     (let column_match = Or (map String uuid_columns) in
      \<lparr> uuid_column_match = column_match,
        uuid_in_condition =
          FunctionCallMatch
            (Some (Or [String (ConditionFunctions_IN cm), String (ConditionFunctions_NOT_IN cm)]))
            (Some [formatted_uuid_pattern column_match '''',
                   Param ''params'' (FunctionCallMatch (Some (String ''tuple'')) None False)])
            False,
        uuid_condition =
          FunctionCallMatch
            (Some (Or (map String
               (filter (\<lambda>op. op \<noteq> ConditionFunctions_IN cm \<and> op \<noteq> ConditionFunctions_NOT_IN cm)
                  (FUNCTION_TO_OPERATOR cm)))))
            (Some [Or [Param ''literal_0'' (LiteralMatch (Some AnyOptionalString)),
                       formatted_uuid_pattern column_match ''_0''],
                   Or [Param ''literal_1'' (LiteralMatch (Some AnyOptionalString)),
                       formatted_uuid_pattern column_match ''_1'']])
            False \<rparr>)"

text \<open>
  \<^verbatim>\<open>parse_uuid\<close>. The parameter \<open>uuid\<close> stands for the standard library:
  \<open>uuid v\<close> is \<^verbatim>\<open>str(uuid.UUID(str(v)))\<close>, the canonical dashed form, when the
  constructor accepts \<^verbatim>\<open>str(v)\<close>, and \<open>None\<close> when it raises.
\<close>

definition parse_uuid :: "(lit_value \<Rightarrow> string option) \<Rightarrow> exp \<Rightarrow> exp" where
  "parse_uuid uuid lit =
     (case lit of
        Literal a v \<Rightarrow> (case uuid v of Some parsed \<Rightarrow> Literal a (VStr parsed) | None \<Rightarrow> lit)
      | _ \<Rightarrow> lit)"

text \<open>
  The loop over the parameters of the tuple; \<open>None\<close> is the \<^verbatim>\<open>return exp\<close> inside it.
\<close>

fun new_fn_params :: "(lit_value \<Rightarrow> string option) \<Rightarrow> exp list \<Rightarrow> exp list option" where
  "new_fn_params uuid [] = Some []"
| "new_fn_params uuid (param # params) =
     (if \<not> is_Literal param then None
      else (case new_fn_params uuid params of
              None \<Rightarrow> None
            | Some rest \<Rightarrow> Some (parse_uuid uuid param # rest)))"

text \<open>One round of the loop over the suffixes \<^verbatim>\<open>"_0"\<close> and \<^verbatim>\<open>"_1"\<close>.\<close>

definition new_param ::
  "(lit_value \<Rightarrow> string option) \<Rightarrow> MatchResult \<Rightarrow> string \<Rightarrow> error + exp list" where
  "new_param uuid result suffix =
     (if contains_name result (''literal'' @ suffix) then
        (case expression result (''literal'' @ suffix) of
           Inl err \<Rightarrow> Inl err
         | Inr lit \<Rightarrow> Inr [parse_uuid uuid lit])
      else if contains_name result (''formatted_uuid_column'' @ suffix) then
        (case expression result (''formatted_uuid_column'' @ suffix) of
           Inl err \<Rightarrow> Inl err
         | Inr column \<Rightarrow> if is_Column column then Inr [column] else Inl AssertionError)
      else Inr [])"

definition process_condition ::
  "(lit_value \<Rightarrow> string option) \<Rightarrow> UUIDColumnProcessor \<Rightarrow> exp \<Rightarrow> error + exp" where
  "process_condition uuid self exp =
     (case exp of
        FunctionCall exp_alias exp_function_name exp_parameters \<Rightarrow>
          (case match_pattern (uuid_in_condition self) (NExpression exp) of
             Some result \<Rightarrow>
               (case expression result ''formatted_uuid_column'' of
                  Inl err \<Rightarrow> Inl err
                | Inr (Column ca table_name column_name) \<Rightarrow>
                    (case expression result ''params'' of
                       Inl err \<Rightarrow> Inl err
                     | Inr (FunctionCall pa pn params) \<Rightarrow>
                         (case new_fn_params uuid params of
                            None \<Rightarrow> Inr exp
                          | Some ps \<Rightarrow>
                              Inr (binary_condition exp_alias exp_function_name
                                     (Column None table_name column_name)
                                     (FunctionCall pa pn ps)))
                     | Inr _ \<Rightarrow> Inl AssertionError)
                | Inr _ \<Rightarrow> Inl AssertionError)
           | None \<Rightarrow>
               (case match_pattern (uuid_condition self) (NExpression exp) of
                  Some result \<Rightarrow>
                    (case new_param uuid result ''_0'' of
                       Inl err \<Rightarrow> Inl err
                     | Inr p0 \<Rightarrow>
                         (case new_param uuid result ''_1'' of
                            Inl err \<Rightarrow> Inl err
                          | Inr p1 \<Rightarrow>
                              (case p0 @ p1 of
                                 [left_exp, right_exp] \<Rightarrow>
                                   Inr (binary_condition exp_alias exp_function_name
                                          left_exp right_exp)
                               | _ \<Rightarrow> Inl UnpackError)))
                | None \<Rightarrow> Inr exp))
      | _ \<Rightarrow> Inr exp)"

section \<open>The post-replacement consistency enforcer\<close>

text \<open>
  Modelled from the spec: the \<^verbatim>\<open>Query\<close> class is not under src/. Section 6 gives its
  contract: read the condition, add a condition (ANDed in), set and get the FINAL flag.
  The conjunction kept in the AST is the list of the conjuncts added so far;
  \<open>conditions\<close> is the legacy representation the processor also writes and reads
  (\<^verbatim>\<open>add_conditions\<close>, \<^verbatim>\<open>get_conditions\<close>).
\<close>

datatype legacy_operand = LegacyColumn string | LegacyFunction string "legacy_operand list"

datatype legacy_condition =
    Condition legacy_operand string lit_value
  | NestedConditions "legacy_condition list"

record Query =
  ast_conditions :: "exp list"
  conditions :: "legacy_condition list"
  final :: bool

definition add_condition_to_ast :: "Query \<Rightarrow> exp \<Rightarrow> Query" where
  "add_condition_to_ast query condition = query \<lparr> ast_conditions := ast_conditions query @ [condition] \<rparr>"

definition add_conditions :: "Query \<Rightarrow> legacy_condition list \<Rightarrow> Query" where
  "add_conditions query cs = query \<lparr> conditions := conditions query @ cs \<rparr>"

definition set_final :: "Query \<Rightarrow> bool \<Rightarrow> Query" where
  "set_final query f = query \<lparr> final := f \<rparr>"

text \<open>
  What the processor reads from outside: the request settings, the runtime configuration,
  the project ids found in the query (\<^verbatim>\<open>get_project_ids_in_query\<close>, which may raise) and
  the replacement state (\<^verbatim>\<open>get_projects_query_flags\<close>). None of these is under src/.
\<close>

record Environment =
  get_turbo :: bool
  consistency_enforcer_processor_enabled :: bool
  get_project_ids_in_query :: "Query \<Rightarrow> error + int list"
  get_projects_query_flags :: "int list \<Rightarrow> bool \<times> int list"
  max_group_ids_exclude :: int
  conditions_names :: conditions_module

text \<open>What the processor does besides changing the query, in the order it does it.\<close>

datatype event =
    ReplacementStateLookup "int list"
  | MetricIncrement string "(string \<times> string) list"
  | LogWarning string

definition str_bool :: "bool \<Rightarrow> string" where
  "str_bool b = (if b then ''True'' else ''False'')"

text \<open>
  Lines 55 to 86 of \<^verbatim>\<open>replaced_groups.py\<close>: the decision. The result is
  \<^verbatim>\<open>set_final\<close>, the excluded ids of \<^verbatim>\<open>condition_to_add\<close> (if any), the query, and the
  lookups made.
\<close>

definition consistency_decision ::
  "Environment \<Rightarrow> Query \<Rightarrow> int list \<Rightarrow> bool \<times> int list option \<times> Query \<times> event list" where
  "consistency_decision env query project_ids =
     (if project_ids \<noteq> [] then
        (case get_projects_query_flags env project_ids of
           (final_flag, exclude_group_ids) \<Rightarrow>
             if \<not> final_flag \<and> exclude_group_ids \<noteq> [] then
               if int (length exclude_group_ids) > max_group_ids_exclude env
               then (True, None, query, [ReplacementStateLookup project_ids])
               else (False, Some exclude_group_ids,
                     add_condition_to_ast query
                       (not_in_condition (conditions_names env) None
                          (FunctionCall None ''assumeNotNull'' [Column None (Some ''group_id'') None])
                          (map (\<lambda>p. Literal None (VInt p)) exclude_group_ids)),
                     [ReplacementStateLookup project_ids])
             else (final_flag, None, query, [ReplacementStateLookup project_ids]))
      else (False, None, query, []))"

definition legacy_group_condition :: "int list \<Rightarrow> legacy_condition" where
  "legacy_group_condition exclude_group_ids =
     Condition (LegacyFunction ''assumeNotNull'' [LegacyColumn ''group_id'']) ''NOT IN''
       (VSeq (map VInt exclude_group_ids))"

fun existing_groups_conditions :: "legacy_condition list \<Rightarrow> lit_value list" where
  "existing_groups_conditions [] = []"
| "existing_groups_conditions (Condition lhs op rhs # cs) =
     (if lhs = LegacyFunction ''assumeNotNull'' [LegacyColumn ''group_id''] \<and> op = ''NOT IN''
      then rhs # existing_groups_conditions cs
      else existing_groups_conditions cs)"
| "existing_groups_conditions (NestedConditions xs # cs) = existing_groups_conditions cs"

text \<open>Lines 92 to 135: the comparison made when the processor is not activated.\<close>

definition shadow_comparison :: "bool \<Rightarrow> int list option \<Rightarrow> Query \<Rightarrow> event list" where
  "shadow_comparison decided_final condition_to_add query =
     (let final_mismatch = (decided_final \<noteq> final query);
          final_events = (if final_mismatch then [MetricIncrement ''mismatch.final'' []] else []);
          existing = existing_groups_conditions (conditions query)
      in if length existing > 1 then
           final_events @
           [MetricIncrement ''mismatch.multiple_group_condition'' [],
            LogWarning ''Multiple group exclusion conditions in the Query'']
         else
           (let group_mismatch =
                  (map_option (\<lambda>excluded. VSeq (map VInt excluded)) condition_to_add
                     \<noteq> (case existing of [] \<Rightarrow> None | x # xs \<Rightarrow> Some x))
            in final_events @
               (if group_mismatch
                then [MetricIncrement ''mismatch.group_id''
                        [(''extension'', str_bool (existing \<noteq> [])),
                         (''processor'', str_bool (condition_to_add \<noteq> None))]]
                else []) @
               (if final_mismatch \<or> group_mismatch
                then [LogWarning
                        ''Discrepancy between project_extension and replacement consistency processor'']
                else [MetricIncrement ''match'' []])))"

text \<open>
  \<^verbatim>\<open>PostReplacementConsistencyEnforcer.process_query\<close>: what it raises or returns, the
  query after the call, and what it did on the way.
\<close>

definition process_query :: "Environment \<Rightarrow> Query \<Rightarrow> (error + unit) \<times> Query \<times> event list" where
  "process_query env query =
     (if get_turbo env then (Inr (), query, [])
      else
        (case get_project_ids_in_query env query of
           Inl e \<Rightarrow>
             if consistency_enforcer_processor_enabled env then (Inl e, query, [])
             else (Inr (), query, [LogWarning ''Failed to find project ids in the Query''])
         | Inr project_ids \<Rightarrow>
             (case consistency_decision env query project_ids of
                (decided_final, condition_to_add, query1, lookups) \<Rightarrow>
                  if consistency_enforcer_processor_enabled env then
                    (Inr (),
                     (case condition_to_add of
                        None \<Rightarrow> set_final query1 decided_final
                      | Some exclude_group_ids \<Rightarrow>
                          add_conditions (set_final query1 decided_final)
                            [legacy_group_condition exclude_group_ids]),
                     lookups)
                  else
                    (Inr (), query1,
                     lookups @ shadow_comparison decided_final condition_to_add query1))))"

section \<open>Conditions and their expressions\<close>

text \<open>
  Modelled from the spec: \<^verbatim>\<open>snuba/query/conditions.py\<close> and the iteration and
  \<^verbatim>\<open>transform\<close> of expressions are not under src/; \<^verbatim>\<open>tests/query/test_conditions.py\<close>
  is. Sections 3 and 4.1: conditions are built over expressions; the iteration is a
  pre-order sequence, left to right in the order of the fields; \<^verbatim>\<open>transform(f)\<close> applies
  \<open>f\<close> to every node, innermost first, and keeps the AND/OR structure. What the tests
  add: \<^verbatim>\<open>condition.get_expressions().transform(f)\<close> is called for its effect, its value
  is dropped, and the next \<^verbatim>\<open>condition.get_expressions()\<close> yields the rewritten
  expressions. So \<open>transform\<close> returns nothing and takes the condition it is called on
  to its new contents.
\<close>

datatype Operator = EQ | OtherOperator string

datatype Condition =
    BasicCondition exp Operator exp
  | AndCondition "Condition list"
  | OrCondition "Condition list"

fun iterate :: "exp \<Rightarrow> exp list" where
  "iterate (Column a t c) = [Column a t c]"
| "iterate (Literal a v) = [Literal a v]"
| "iterate (Argument a n) = [Argument a n]"
| "iterate (FunctionCall a n ps) = FunctionCall a n ps # concat (map iterate ps)"
| "iterate (CurriedFunctionCall a f ps) =
     CurriedFunctionCall a f ps # iterate f @ concat (map iterate ps)"
| "iterate (SubscriptableReference a c k) =
     SubscriptableReference a c k # iterate c @ iterate k"
| "iterate (Lambda a ns b) = Lambda a ns b # iterate b"

fun get_expressions :: "Condition \<Rightarrow> exp list" where
  "get_expressions (BasicCondition lhs op rhs) = iterate lhs @ iterate rhs"
| "get_expressions (AndCondition cs) = concat (map get_expressions cs)"
| "get_expressions (OrCondition cs) = concat (map get_expressions cs)"

fun transform_expression :: "(exp \<Rightarrow> exp) \<Rightarrow> exp \<Rightarrow> exp" where
  "transform_expression f (Column a t c) = f (Column a t c)"
| "transform_expression f (Literal a v) = f (Literal a v)"
| "transform_expression f (Argument a n) = f (Argument a n)"
| "transform_expression f (FunctionCall a n ps) =
     f (FunctionCall a n (map (transform_expression f) ps))"
| "transform_expression f (CurriedFunctionCall a g ps) =
     f (CurriedFunctionCall a (transform_expression f g) (map (transform_expression f) ps))"
| "transform_expression f (SubscriptableReference a c k) =
     f (SubscriptableReference a (transform_expression f c) (transform_expression f k))"
| "transform_expression f (Lambda a ns b) = f (Lambda a ns (transform_expression f b))"

fun rewrite :: "(exp \<Rightarrow> exp) \<Rightarrow> Condition \<Rightarrow> Condition" where
  "rewrite f (BasicCondition lhs op rhs) =
     BasicCondition (transform_expression f lhs) op (transform_expression f rhs)"
| "rewrite f (AndCondition cs) = AndCondition (map (rewrite f) cs)"
| "rewrite f (OrCondition cs) = OrCondition (map (rewrite f) cs)"

definition transform :: "(exp \<Rightarrow> exp) \<Rightarrow> Condition \<Rightarrow> unit \<times> Condition" where
  "transform f condition = ((), rewrite f condition)"

text \<open>The AND/OR structure of a condition, without its expressions.\<close>

datatype shape = Basic Operator | And "shape list" | Either "shape list"




text \<open>\<^verbatim>\<open>replace_col\<close> of the tests: the column named \<open>name\<close> becomes \<open>replacement\<close>.\<close>

definition replace_col :: "string \<Rightarrow> exp \<Rightarrow> exp \<Rightarrow> exp" where
  "replace_col name replacement e =
     (case e of
        Column a column_name table_name \<Rightarrow>
          if column_name = Some name then replacement else e
      | _ \<Rightarrow> e)"

section \<open>Example inputs\<close>

text \<open>
  A stand-in for the standard library's parser on two strings, the names ClickHouse
  uses for the operators, and a query and an environment for the enforcer.
\<close>

definition example_uuid :: "lit_value \<Rightarrow> string option" where
  "example_uuid v =
     (if v = VStr ''a7d67cf796774551a95be6543cacd459''
      then Some ''a7d67cf7-9677-4551-a95b-e6543cacd459'' else None)"

definition example_conditions_module :: conditions_module where
  "example_conditions_module =
     \<lparr> ConditionFunctions_IN = ''in'', ConditionFunctions_NOT_IN = ''notIn'',
       FUNCTION_TO_OPERATOR = [''equals'', ''notEquals'', ''in'', ''notIn''] \<rparr>"

definition example_query :: Query where
  "example_query = \<lparr> ast_conditions = [], conditions = [], final = False \<rparr>"

definition example_environment :: "bool \<Rightarrow> bool \<Rightarrow> int list \<Rightarrow> Environment" where
  "example_environment turbo enabled excluded =
     \<lparr> get_turbo = turbo,
       consistency_enforcer_processor_enabled = enabled,
       get_project_ids_in_query = (\<lambda>q. Inr [1]),
       get_projects_query_flags = (\<lambda>ps. (False, excluded)),
       max_group_ids_exclude = 2,
       conditions_names = example_conditions_module \<rparr>"

section \<open>Properties of the translator\<close>

subsection \<open>Rule lists\<close>



lemma map_expression_append_Inl:
  "map_expression e (xs @ ys) t = Inl err \<Longrightarrow>
     (\<exists>r\<in>set xs. r e t = Inl err) \<or> map_expression e ys t = Inl err"
  by (induction xs) (auto split: sum.splits option.splits)

lemma rules_of_concat_rules:
  "rules_of (concat_rules A B) k = rules_of A k @ rules_of B k"
  by (cases k) (simp_all add: concat_rules_def)


lemma translate_all_Inl:
  "translate_all f ps = Inl err \<Longrightarrow> \<exists>p\<in>set ps. f p = Inl err"
  by (induction ps) (auto split: sum.splits)

lemma translate_all_id:
  "\<forall>p\<in>set ps. f p = Inr p \<Longrightarrow> translate_all f ps = Inr ps"
  by (induction ps) auto

lemma wf_accepts: "wf p \<Longrightarrow> accepts (kind_of p) p"
  by (simp add: accepts_def)

lemma height_le_foldr_max: "p \<in> set ps \<Longrightarrow> height p \<le> foldr max (map height ps) 0"
  by (induction ps) auto

subsection \<open>Composition order\<close>



lemma concat_rewrites_both_columns:
  "translate 3 (SnubaClickhouseRulesTranslator
        (concat_rules (no_rules \<lparr> columns := [ColumnMapper ''col'' None ''col2'' None] \<rparr>)
                      (no_rules \<lparr> columns := [ColumnMapper ''cola'' None ''colb'' None] \<rparr>)))
     KFunctionCall
     (FunctionCall None ''f''
        [Column None (Some ''col'') None, Column None (Some ''cola'') None,
         Column None (Some ''x'') None])
   = Inr (FunctionCall None ''f''
        [Column None (Some ''col2'') None, Column None (Some ''colb'') None,
         Column None (Some ''x'') None])"
  by (simp add: eval_nat_numeral SnubaClickhouseRulesTranslator_def concat_rules_def
      no_rules_def default_rules_def ColumnMapper_def translate_expression_def
      DefaultColumnMapper_def)

subsection \<open>The error of the dispatch loop\<close>

lemma default_rules_Inl:
  assumes "accepts k e" and "map_expression e (rules_of default_rules k) t = Inl err"
  shows "err = AssertionError \<or> (\<exists>k' e'. accepts k' e' \<and> t k' e' = Inl err)"
proof (cases e)
  case (Column a tb c)
  with assms show ?thesis
    by (auto simp: accepts_def default_rules_def DefaultColumnMapper_def)
next
  case (Literal a v)
  with assms show ?thesis
    by (auto simp: accepts_def default_rules_def DefaultLiteralMapper_def)
next
  case (Argument a n)
  with assms show ?thesis
    by (auto simp: accepts_def default_rules_def DefaultArgumentMapper_def)
next
  case (FunctionCall a n ps)
  with assms have w: "list_all wf ps"
    and "translate_all (translate_expression t) ps = Inl err"
    by (auto simp: accepts_def default_rules_def split: sum.splits)
  then obtain p where "p \<in> set ps" "t (kind_of p) p = Inl err"
    using translate_all_Inl [of "translate_expression t" ps err]
    by (auto simp: translate_expression_def)
  with w show ?thesis
    using wf_accepts [of p] by (auto simp: list_all_iff)
next
  case (CurriedFunctionCall a f ps)
  with assms have w: "list_all wf ps" and wf: "wf f" and ff: "is_FunctionCall f"
    and d: "t KFunctionCall f = Inl err \<or> translate_all (translate_expression t) ps = Inl err"
    by (auto simp: accepts_def default_rules_def split: sum.splits)
  from d show ?thesis
  proof
    assume "t KFunctionCall f = Inl err"
    moreover from ff wf have "accepts KFunctionCall f"
      by (cases f) (simp_all add: accepts_def)
    ultimately show ?thesis by blast
  next
    assume "translate_all (translate_expression t) ps = Inl err"
    then obtain p where "p \<in> set ps" "t (kind_of p) p = Inl err"
      using translate_all_Inl [of "translate_expression t" ps err]
      by (auto simp: translate_expression_def)
    with w show ?thesis
      using wf_accepts [of p] by (auto simp: list_all_iff)
  qed
next
  case (SubscriptableReference a c key)
  with assms have ic: "is_Column c" and il: "is_Literal key"
    and d: "err = AssertionError \<or> t KColumn c = Inl err \<or> t KLiteral key = Inl err"
    by (auto simp: accepts_def default_rules_def split: sum.splits if_splits)
  from ic have "accepts KColumn c" by (cases c) (simp_all add: accepts_def)
  moreover from il have "accepts KLiteral key" by (cases key) (simp_all add: accepts_def)
  ultimately show ?thesis using d by blast
next
  case (Lambda a ns b)
  with assms have "wf b" and "t (kind_of b) b = Inl err"
    by (auto simp: accepts_def default_rules_def translate_expression_def split: sum.splits)
  then show ?thesis using wf_accepts [of b] by blast
qed

lemma translate_failures:
  assumes "rules_never_throw rules"
  shows "accepts k e \<Longrightarrow> translate n (SnubaClickhouseRulesTranslator rules) k e = Inl err \<Longrightarrow>
           err = AssertionError \<or> err = RecursionError"
proof (induction n arbitrary: k e)
  case 0
  then show ?case by simp
next
  case (Suc n)
  let ?rs = "SnubaClickhouseRulesTranslator rules"
  let ?t = "translate n ?rs"
  have r: "rules_of ?rs k = rules_of rules k @ rules_of default_rules k"
    by (simp add: SnubaClickhouseRulesTranslator_def rules_of_concat_rules)
  from Suc.prems(2) have "map_expression e (rules_of rules k @ rules_of default_rules k) ?t = Inl err"
    by (simp add: r del: rules_of.simps)
  then consider
      (user) r where "r \<in> set (rules_of rules k)" "r e ?t = Inl err"
    | (default) "map_expression e (rules_of default_rules k) ?t = Inl err"
    using map_expression_append_Inl by blast
  then show ?case
  proof cases
    case user
    with assms have "never_throws k r" by (simp add: rules_never_throw_def)
    with user(2) Suc.prems(1) obtain k' e' where "accepts k' e'" "?t k' e' = Inl err"
      unfolding never_throws_def by blast
    with Suc.IH show ?thesis by blast
  next
    case default
    with Suc.prems(1) consider "err = AssertionError"
      | k' e' where "accepts k' e'" "?t k' e' = Inl err"
      using default_rules_Inl by blast
    then show ?thesis
    proof cases
      case 1
      then show ?thesis by simp
    next
      case 2
      with Suc.IH show ?thesis by blast
    qed
  qed
qed

text \<open>
  C1, as the code has it. For every node kind, every expression the entry point of that
  kind accepts and every rule set whose rules keep the no-throw contract, the translator
  built by \<^verbatim>\<open>__init__\<close> never fails with the \<^verbatim>\<open>ValueError\<close> of
  \<^verbatim>\<open>__map_expression\<close>, whatever the nesting limit: the default rule appended to each
  list always answers. The only failures left are the assertion of the default rule for
  subscriptable references and the nesting limit itself.
\<close>

theorem no_rule_matched_unreachable:
  assumes "rules_never_throw rules" and "accepts k e"
  shows "translate n (SnubaClickhouseRulesTranslator rules) k e \<noteq> Inl (CannotMapExpression x)
       \<and> (\<forall>err. translate n (SnubaClickhouseRulesTranslator rules) k e = Inl err \<longrightarrow>
             err = AssertionError \<or> err = RecursionError)"
  using translate_failures [OF assms] by auto

lemma ColumnMapper_never_throws: "never_throws k (ColumnMapper c tb c' tb')"
  by (auto simp: never_throws_def ColumnMapper_def split: exp.splits if_splits)

theorem no_rule_matched_unreachable_witness:
  "translate 3 (SnubaClickhouseRulesTranslator
          (no_rules \<lparr> columns := [ColumnMapper ''col'' None ''col2'' None] \<rparr>))
        KFunctionCall (FunctionCall None ''f'' [Column None (Some ''col'') None])
      \<noteq> Inl (CannotMapExpression (FunctionCall None ''f'' [Column None (Some ''col'') None]))"
proof -
  have r: "rules_never_throw (no_rules \<lparr> columns := [ColumnMapper ''col'' None ''col2'' None] \<rparr>)"
    unfolding rules_never_throw_def
  proof (intro allI ballI)
    fix k r
    assume "r \<in> set (rules_of (no_rules \<lparr> columns := [ColumnMapper ''col'' None ''col2'' None] \<rparr>) k)"
    then have "r = ColumnMapper ''col'' None ''col2'' None"
      by (cases k) (simp_all add: no_rules_def)
    then show "never_throws k r" by (simp add: ColumnMapper_never_throws)
  qed
  have a: "accepts KFunctionCall (FunctionCall None ''f'' [Column None (Some ''col'') None])"
    by (simp add: accepts_def)
  from no_rule_matched_unreachable [OF r a] show ?thesis by blast
qed

lemma subscriptable_assertion:
  "translate (Suc (Suc n))
     (SnubaClickhouseRulesTranslator
        (no_rules \<lparr> columns := [ColumnToLiteral ''tags'' (VStr ''x'')] \<rparr>))
     KSubscriptableReference
     (SubscriptableReference (Some ''tags[release]'') (Column None (Some ''tags'') None)
        (Literal None (VStr ''release'')))
   = Inl AssertionError"
  by (simp add: SnubaClickhouseRulesTranslator_def concat_rules_def no_rules_def
      default_rules_def ColumnToLiteral_def)

text \<open>
  C1, as stated, fails: a column rule that answers with a literal makes the default rule
  for subscriptable references stop at its \<^verbatim>\<open>assert isinstance(column, Column)\<close>, on a
  well-typed expression and with rules that never throw.
\<close>

theorem translation_fails_counterexample:
  "translate 2
     (SnubaClickhouseRulesTranslator
        (no_rules \<lparr> columns := [ColumnToLiteral ''tags'' (VStr ''x'')] \<rparr>))
     KSubscriptableReference
     (SubscriptableReference (Some ''tags[release]'') (Column None (Some ''tags'') None)
        (Literal None (VStr ''release'')))
   = Inl AssertionError
   \<and> wf (SubscriptableReference (Some ''tags[release]'') (Column None (Some ''tags'') None)
        (Literal None (VStr ''release'')))"
  using subscriptable_assertion [of 0] by (simp add: eval_nat_numeral)

subsection \<open>The inner function of a curried call\<close>

text \<open>
  As long as every rule for functions answers with a function call, and every rule for
  curried calls with a curried call around one, so does the translator: the inner
  function is kept a function call by the rules, not by a check.
\<close>

lemma map_expression_Inr:
  "map_expression e rs t = Inr x \<Longrightarrow> \<exists>r\<in>set rs. r e t = Inr (Some x)"
  by (induction rs) (auto split: sum.splits option.splits)

lemma DefaultFunctionMapper_answer:
  "DefaultFunctionMapper e t = Inr (Some x) \<Longrightarrow> is_FunctionCall x"
  by (cases e) (auto split: sum.splits)

lemma translate_function_call_typed:
  assumes "\<forall>r\<in>set (functions rules). answers_with is_FunctionCall r"
    and "translate n (SnubaClickhouseRulesTranslator rules) KFunctionCall e = Inr x"
  shows "is_FunctionCall x"
proof (cases n)
  case 0
  with assms(2) show ?thesis by simp
next
  case (Suc m)
  with assms(2) obtain r
    where r: "r \<in> set (functions rules @ [DefaultFunctionMapper])"
      and a: "r e (translate m (SnubaClickhouseRulesTranslator rules)) = Inr (Some x)"
    using map_expression_Inr
    by (fastforce simp: SnubaClickhouseRulesTranslator_def concat_rules_def default_rules_def)
  from r assms(1) have "answers_with is_FunctionCall r \<or> r = DefaultFunctionMapper" by auto
  with a show ?thesis
    by (auto simp: answers_with_def dest: DefaultFunctionMapper_answer)
qed

lemma typed_function_rules_keep_inner_function:
  assumes "\<forall>r\<in>set (functions rules). answers_with is_FunctionCall r"
    and "\<forall>r\<in>set (curried_functions rules). answers_with has_function_inside r"
    and "translate n (SnubaClickhouseRulesTranslator rules) KCurriedFunctionCall e = Inr x"
  shows "has_function_inside x"
proof (cases n)
  case 0
  with assms(3) show ?thesis by simp
next
  case (Suc m)
  let ?t = "translate m (SnubaClickhouseRulesTranslator rules)"
  from Suc assms(3) obtain r
    where r: "r \<in> set (curried_functions rules @ [DefaultCurriedFunctionMapper])"
      and a: "r e ?t = Inr (Some x)"
    using map_expression_Inr
    by (fastforce simp: SnubaClickhouseRulesTranslator_def concat_rules_def default_rules_def)
  from r assms(2) consider "answers_with has_function_inside r" | "r = DefaultCurriedFunctionMapper"
    by auto
  then show ?thesis
  proof cases
    case 1
    with a show ?thesis by (auto simp: answers_with_def)
  next
    case 2
    with a obtain al f ps f' ps' where "e = CurriedFunctionCall al f ps"
        "?t KFunctionCall f = Inr f'" "x = CurriedFunctionCall al f' ps'"
      by (cases e) (auto split: sum.splits)
    with translate_function_call_typed [OF assms(1)] show ?thesis by simp
  qed
qed

lemma malformed_curried_call_cannot_be_mapped:
  "translate 2 (SnubaClickhouseRulesTranslator no_rules) KCurriedFunctionCall
     (CurriedFunctionCall None (Column None (Some ''c'') None) [])
   = Inl (CannotMapExpression (Column None (Some ''c'') None))"
  by (simp add: eval_nat_numeral SnubaClickhouseRulesTranslator_def concat_rules_def
      no_rules_def default_rules_def)


subsection \<open>Translation with the default rules only\<close>

lemma default_translation_identity:
  "wf e \<Longrightarrow> height e \<le> n \<Longrightarrow>
     translate n (SnubaClickhouseRulesTranslator no_rules) (kind_of e) e = Inr e"
proof (induction e arbitrary: n)
  case (Column a tb c)
  then obtain m where "n = Suc m" by (cases n) auto
  then show ?case
    by (simp add: SnubaClickhouseRulesTranslator_def concat_rules_def no_rules_def
        default_rules_def DefaultColumnMapper_def)
next
  case (Literal a v)
  then obtain m where "n = Suc m" by (cases n) auto
  then show ?case
    by (simp add: SnubaClickhouseRulesTranslator_def concat_rules_def no_rules_def
        default_rules_def DefaultLiteralMapper_def)
next
  case (Argument a x)
  then obtain m where "n = Suc m" by (cases n) auto
  then show ?case
    by (simp add: SnubaClickhouseRulesTranslator_def concat_rules_def no_rules_def
        default_rules_def DefaultArgumentMapper_def)
next
  case (FunctionCall a f ps)
  then obtain m where n: "n = Suc m" by (cases n) auto
  let ?t = "translate m (SnubaClickhouseRulesTranslator no_rules)"
  have "\<forall>p\<in>set ps. translate_expression ?t p = Inr p"
  proof
    fix p assume p: "p \<in> set ps"
    with FunctionCall.prems n have "wf p" "height p \<le> m"
      using height_le_foldr_max [of p ps] by (auto simp: list_all_iff)
    with FunctionCall.IH p show "translate_expression ?t p = Inr p"
      by (simp add: translate_expression_def)
  qed
  then have "translate_all (translate_expression ?t) ps = Inr ps"
    by (rule translate_all_id)
  then show ?case
    by (simp add: n SnubaClickhouseRulesTranslator_def concat_rules_def no_rules_def
        default_rules_def)
next
  case (CurriedFunctionCall a f ps)
  then obtain m where n: "n = Suc m" by (cases n) auto
  let ?t = "translate m (SnubaClickhouseRulesTranslator no_rules)"
  have "\<forall>p\<in>set ps. translate_expression ?t p = Inr p"
  proof
    fix p assume p: "p \<in> set ps"
    with CurriedFunctionCall.prems n have "wf p" "height p \<le> m"
      using height_le_foldr_max [of p ps] by (auto simp: list_all_iff)
    with CurriedFunctionCall.IH(2) p show "translate_expression ?t p = Inr p"
      by (simp add: translate_expression_def)
  qed
  then have ps: "translate_all (translate_expression ?t) ps = Inr ps"
    by (rule translate_all_id)
  from CurriedFunctionCall.prems n have "wf f" "height f \<le> m" "kind_of f = KFunctionCall"
    by (cases f; simp)+
  with CurriedFunctionCall.IH(1) [of m] have "?t KFunctionCall f = Inr f" by simp
  with ps show ?case
    by (simp add: n SnubaClickhouseRulesTranslator_def concat_rules_def no_rules_def
        default_rules_def)
next
  case (SubscriptableReference a c key)
  then obtain m where n: "n = Suc m" by (cases n) auto
  let ?t = "translate m (SnubaClickhouseRulesTranslator no_rules)"
  from SubscriptableReference.prems n have "wf c" "height c \<le> m" "kind_of c = KColumn"
    by (cases c; simp)+
  with SubscriptableReference.IH(1) [of m] have c: "?t KColumn c = Inr c" by simp
  from SubscriptableReference.prems n have "wf key" "height key \<le> m" "kind_of key = KLiteral"
    by (cases key; simp)+
  with SubscriptableReference.IH(2) [of m] have k: "?t KLiteral key = Inr key" by simp
  from c k SubscriptableReference.prems show ?case
    by (simp add: n SnubaClickhouseRulesTranslator_def concat_rules_def no_rules_def
        default_rules_def)
next
  case (Lambda a ns b)
  then obtain m where n: "n = Suc m" by (cases n) auto
  with Lambda have "translate m (SnubaClickhouseRulesTranslator no_rules) (kind_of b) b = Inr b"
    by simp
  then show ?case
    by (simp add: n SnubaClickhouseRulesTranslator_def concat_rules_def no_rules_def
        default_rules_def translate_expression_def)
qed

subsection \<open>Fresh copies\<close>


lemma translate_all_obj_fresh:
  assumes "\<forall>p\<in>set ps. \<forall>h. \<exists>p' h'. f p h = (Inr p', h') \<and> value_of p' = value_of p
             \<and> h \<le> h' \<and> ids p' \<subseteq> {h..<h'}"
  shows "\<exists>ps' h'. translate_all_obj f ps h = (Inr ps', h') \<and> map value_of ps' = map value_of ps
             \<and> h \<le> h' \<and> \<Union> (set (map ids ps')) \<subseteq> {h..<h'}"
  using assms
proof (induction ps arbitrary: h)
  case Nil
  show ?case by simp
next
  case (Cons p ps)
  from Cons.prems obtain p' h1 where p: "f p h = (Inr p', h1)" "value_of p' = value_of p"
      "h \<le> h1" "ids p' \<subseteq> {h..<h1}"
    by (metis list.set_intros(1))
  from Cons.prems have "\<forall>q\<in>set ps. \<forall>h. \<exists>p' h'. f q h = (Inr p', h') \<and> value_of p' = value_of q
             \<and> h \<le> h' \<and> ids p' \<subseteq> {h..<h'}"
    by simp
  from Cons.IH [OF this, of h1] obtain ps' h2 where ps: "translate_all_obj f ps h1 = (Inr ps', h2)"
      "map value_of ps' = map value_of ps" "h1 \<le> h2" "\<Union> (set (map ids ps')) \<subseteq> {h1..<h2}"
    by blast
  have "ids p' \<subseteq> {h..<h2}" using p(4) ps(3) by auto
  moreover have "\<Union> (set (map ids ps')) \<subseteq> {h..<h2}" using ps(4) p(3) by auto
  ultimately show ?case using p ps by simp
qed

lemma translate_obj_default:
  "wf (value_of e) \<Longrightarrow> height (value_of e) \<le> n \<Longrightarrow>
     \<exists>e' h'. translate_obj n (kind_of (value_of e)) e h = (Inr e', h')
        \<and> value_of e' = value_of e \<and> h \<le> h' \<and> ids e' \<subseteq> {h..<h'}"
proof (induction e arbitrary: n h)
  case (OColumn i a t c)
  then obtain m where "n = Suc m" by (cases n) auto
  then show ?case by (simp add: DefaultColumnMapper_obj_def)
next
  case (OLiteral i a v)
  then obtain m where "n = Suc m" by (cases n) auto
  then show ?case by (simp add: DefaultLiteralMapper_obj_def)
next
  case (OArgument i a x)
  then obtain m where "n = Suc m" by (cases n) auto
  then show ?case by (simp add: DefaultArgumentMapper_obj_def)
next
  case (OFunctionCall i a f ps)
  then obtain m where n: "n = Suc m" by (cases n) auto
  let ?f = "translate_expression_obj (translate_obj m)"
  have "\<forall>p\<in>set ps. \<forall>h. \<exists>p' h'. ?f p h = (Inr p', h') \<and> value_of p' = value_of p
             \<and> h \<le> h' \<and> ids p' \<subseteq> {h..<h'}"
  proof (intro ballI allI)
    fix p h0 assume p: "p \<in> set ps"
    with OFunctionCall.prems n have "wf (value_of p)" "height (value_of p) \<le> m"
      using height_le_foldr_max [of "value_of p" "map value_of ps"]
      by (auto simp: list_all_iff)
    from OFunctionCall.IH [OF p this, of h0]
    show "\<exists>p' h'. ?f p h0 = (Inr p', h') \<and> value_of p' = value_of p
             \<and> h0 \<le> h' \<and> ids p' \<subseteq> {h0..<h'}"
      by (simp add: translate_expression_obj_def)
  qed
  from translate_all_obj_fresh [OF this, of h]
  obtain ps' h1 where ps: "translate_all_obj ?f ps h = (Inr ps', h1)"
      "map value_of ps' = map value_of ps" "h \<le> h1" "\<Union> (set (map ids ps')) \<subseteq> {h..<h1}"
    by blast
  have "\<Union> (set (map ids ps')) \<subseteq> {h..<Suc h1}" using ps(4) by auto
  with ps show ?case by (simp add: n)
next
  case (OCurriedFunctionCall i a f ps)
  then obtain m where n: "n = Suc m" by (cases n) auto
  let ?f = "translate_expression_obj (translate_obj m)"
  from OCurriedFunctionCall.prems n
  have wf: "wf (value_of f)" "height (value_of f) \<le> m" "kind_of (value_of f) = KFunctionCall"
    by (cases "value_of f"; simp)+
  from OCurriedFunctionCall.IH(1) [OF wf(1,2), of h] wf(3)
  obtain f' h1 where f: "translate_obj m KFunctionCall f h = (Inr f', h1)"
      "value_of f' = value_of f" "h \<le> h1" "ids f' \<subseteq> {h..<h1}"
    by auto
  have "\<forall>p\<in>set ps. \<forall>h. \<exists>p' h'. ?f p h = (Inr p', h') \<and> value_of p' = value_of p
             \<and> h \<le> h' \<and> ids p' \<subseteq> {h..<h'}"
  proof (intro ballI allI)
    fix p h0 assume p: "p \<in> set ps"
    with OCurriedFunctionCall.prems n have "wf (value_of p)" "height (value_of p) \<le> m"
      using height_le_foldr_max [of "value_of p" "map value_of ps"]
      by (auto simp: list_all_iff)
    from OCurriedFunctionCall.IH(2) [OF p this, of h0]
    show "\<exists>p' h'. ?f p h0 = (Inr p', h') \<and> value_of p' = value_of p
             \<and> h0 \<le> h' \<and> ids p' \<subseteq> {h0..<h'}"
      by (simp add: translate_expression_obj_def)
  qed
  from translate_all_obj_fresh [OF this, of h1]
  obtain ps' h2 where ps: "translate_all_obj ?f ps h1 = (Inr ps', h2)"
      "map value_of ps' = map value_of ps" "h1 \<le> h2" "\<Union> (set (map ids ps')) \<subseteq> {h1..<h2}"
    by blast
  have "\<Union> (set (map ids ps')) \<subseteq> {h..<Suc h2}" using ps(4) f(3) by auto
  moreover have "ids f' \<subseteq> {h..<Suc h2}" using f(4) ps(3) by auto
  ultimately show ?case using f ps by (simp add: n)
next
  case (OSubscriptableReference i a c k)
  then obtain m where n: "n = Suc m" by (cases n) auto
  from OSubscriptableReference.prems n
  have wc: "wf (value_of c)" "height (value_of c) \<le> m" "kind_of (value_of c) = KColumn"
    by (cases "value_of c"; simp)+
  from OSubscriptableReference.IH(1) [OF wc(1,2), of h] wc(3)
  obtain c' h1 where c: "translate_obj m KColumn c h = (Inr c', h1)"
      "value_of c' = value_of c" "h \<le> h1" "ids c' \<subseteq> {h..<h1}"
    by auto
  from OSubscriptableReference.prems n
  have wk: "wf (value_of k)" "height (value_of k) \<le> m" "kind_of (value_of k) = KLiteral"
    by (cases "value_of k"; simp)+
  from OSubscriptableReference.IH(2) [OF wk(1,2), of h1] wk(3)
  obtain k' h2 where k: "translate_obj m KLiteral k h1 = (Inr k', h2)"
      "value_of k' = value_of k" "h1 \<le> h2" "ids k' \<subseteq> {h1..<h2}"
    by auto
  have "ids c' \<subseteq> {h..<Suc h2}" using c(4) k(3) by auto
  moreover have "ids k' \<subseteq> {h..<Suc h2}" using k(4) c(3) by auto
  ultimately show ?case using c k OSubscriptableReference.prems by (simp add: n)
next
  case (OLambda i a ns b)
  then obtain m where n: "n = Suc m" by (cases n) auto
  with OLambda.prems have "wf (value_of b)" "height (value_of b) \<le> m" by simp_all
  from OLambda.IH [OF this, of h]
  obtain b' h1 where b: "translate_obj m (kind_of (value_of b)) b h = (Inr b', h1)"
      "value_of b' = value_of b" "h \<le> h1" "ids b' \<subseteq> {h..<h1}"
    by blast
  have "ids b' \<subseteq> {h..<Suc h1}" using b(4) by auto
  with b show ?case by (simp add: n translate_expression_obj_def)
qed

lemma nodes_ids: "x \<in> set (nodes e) \<Longrightarrow> id_of x \<in> ids e"
  by (induction e) auto


text \<open>
  C2. With no rule of the caller's, translating a well-typed expression (within the
  nesting limit) returns a tree equal in value to the input, and every object of the
  output is new: no object of the output is an object of the input, in particular not the
  one at the same position of the iteration.
\<close>

theorem default_translation_fresh_copy:
  assumes "wf (value_of e)" and "height (value_of e) \<le> n" and "\<forall>i\<in>ids e. i < h"
  shows "\<exists>e' h'. translate_obj n (kind_of (value_of e)) e h = (Inr e', h')
           \<and> value_of e' = value_of e
           \<and> ids e' \<inter> ids e = {}
           \<and> (\<forall>(x, y)\<in>set (zip (nodes e') (nodes e)). id_of x \<noteq> id_of y)"
proof -
  from translate_obj_default [OF assms(1,2), of h]
  obtain e' h' where r: "translate_obj n (kind_of (value_of e)) e h = (Inr e', h')"
      "value_of e' = value_of e" "h \<le> h'" "ids e' \<subseteq> {h..<h'}"
    by blast
  from r(4) assms(3) have d: "ids e' \<inter> ids e = {}" by fastforce
  have "id_of x \<noteq> id_of y" if "(x, y) \<in> set (zip (nodes e') (nodes e))" for x y
  proof -
    from that have "x \<in> set (nodes e')" "y \<in> set (nodes e)"
      by (auto dest: set_zip_leftD set_zip_rightD)
    then have "id_of x \<in> ids e'" "id_of y \<in> ids e" by (auto dest: nodes_ids)
    with d show ?thesis by auto
  qed
  with r d show ?thesis by auto
qed

theorem default_translation_fresh_copy_witness:
  "\<exists>e' h'. translate_obj 3 KFunctionCall
       (OFunctionCall 0 (Some ''alias'') ''f''
          [OColumn 1 None (Some ''col'') (Some ''table''), OLiteral 2 None (VInt 123),
           OFunctionCall 3 None ''f1'' [OColumn 4 None (Some ''col2'') None]]) 5 = (Inr e', h')
     \<and> value_of e' = FunctionCall (Some ''alias'') ''f''
          [Column None (Some ''col'') (Some ''table''), Literal None (VInt 123),
           FunctionCall None ''f1'' [Column None (Some ''col2'') None]]
     \<and> ids e' \<inter> {0, 1, 2, 3, 4} = {}"
proof -
  let ?E = "OFunctionCall 0 (Some ''alias'') ''f''
          [OColumn 1 None (Some ''col'') (Some ''table''), OLiteral 2 None (VInt 123),
           OFunctionCall 3 None ''f1'' [OColumn 4 None (Some ''col2'') None]]"
  have w: "wf (value_of ?E)" by simp
  have g: "height (value_of ?E) \<le> 3" by simp
  have i: "\<forall>i\<in>ids ?E. i < 5" by simp
  have k: "kind_of (value_of ?E) = KFunctionCall" by simp
  have s: "ids ?E = {0, 1, 2, 3, 4}" by auto
  from default_translation_fresh_copy [OF w g i]
  obtain e' h' where "translate_obj 3 (kind_of (value_of ?E)) ?E 5 = (Inr e', h')"
      "value_of e' = value_of ?E" "ids e' \<inter> ids ?E = {}"
    by blast
  then have "translate_obj 3 KFunctionCall ?E 5 = (Inr e', h')
     \<and> value_of e' = FunctionCall (Some ''alias'') ''f''
          [Column None (Some ''col'') (Some ''table''), Literal None (VInt 123),
           FunctionCall None ''f1'' [Column None (Some ''col2'') None]]
     \<and> ids e' \<inter> {0, 1, 2, 3, 4} = {}"
    unfolding k s by simp
  then show ?thesis by blast
qed

text \<open>
  The translator with identities computes, value for value, what \<open>translate\<close> computes
  when the caller registers no rule.
\<close>

lemma deepcopy_value:
  "value_of (fst (deepcopy e h)) = value_of e"
  "map value_of (fst (deepcopy_all ps h)) = map value_of ps"
  by (induction e h and ps h rule: deepcopy_deepcopy_all.induct) (auto split: prod.splits)

lemma translate_all_obj_value:
  assumes "\<And>p h. map_sum id value_of (fst (f p h)) = g (value_of p)"
  shows "map_sum id (map value_of) (fst (translate_all_obj f ps h)) = translate_all g (map value_of ps)"
proof (induction ps arbitrary: h)
  case Nil
  show ?case by simp
next
  case (Cons p ps)
  obtain r h1 where f: "f p h = (r, h1)" by (cases "f p h")
  show ?case
  proof (cases r)
    case (Inl err)
    with f assms [of p h] show ?thesis by (auto split: sum.splits)
  next
    case (Inr p')
    with f assms [of p h] have g: "g (value_of p) = Inr (value_of p')" by simp
    obtain r2 h2 where t: "translate_all_obj f ps h1 = (r2, h2)"
      by (cases "translate_all_obj f ps h1")
    with Cons.IH [of h1] f Inr g show ?thesis
      by (cases r2) (auto split: sum.splits)
  qed
qed


lemma same_translatorD:
  assumes "same_translator t g" and "t k p h = (r, h1)"
  shows "g k (value_of p) = map_sum id value_of r"
proof -
  from assms(1) have "map_sum id value_of (fst (t k p h)) = g k (value_of p)"
    unfolding same_translator_def by blast
  with assms(2) show ?thesis by simp
qed

lemma same_translator_all:
  assumes "same_translator t g"
  shows "map_sum id (map value_of) (fst (translate_all_obj (translate_expression_obj t) ps h))
     = translate_all (translate_expression g) (map value_of ps)"
  using assms
  by (intro translate_all_obj_value)
     (simp add: same_translator_def translate_expression_obj_def translate_expression_def)

lemma DefaultFunctionMapper_value:
  assumes "same_translator t g"
  shows "map_sum id (map_option value_of) (fst (DefaultFunctionMapper_obj e t h))
     = DefaultFunctionMapper (value_of e) g"
proof (cases e)
  case (OFunctionCall i a n ps)
  obtain r h1 where r: "translate_all_obj (translate_expression_obj t) ps h = (r, h1)"
    by (cases "translate_all_obj (translate_expression_obj t) ps h")
  with same_translator_all [OF assms, of ps h] OFunctionCall show ?thesis
    by (cases r) (auto split: sum.splits)
qed simp_all

lemma DefaultCurriedFunctionMapper_value:
  assumes "same_translator t g"
  shows "map_sum id (map_option value_of) (fst (DefaultCurriedFunctionMapper_obj e t h))
     = DefaultCurriedFunctionMapper (value_of e) g"
proof (cases e)
  case (OCurriedFunctionCall i a f ps)
  obtain rf h1 where f: "t KFunctionCall f h = (rf, h1)" by (cases "t KFunctionCall f h")
  with assms have gf: "g KFunctionCall (value_of f) = map_sum id value_of rf"
    by (rule same_translatorD)
  obtain r h2 where r: "translate_all_obj (translate_expression_obj t) ps h1 = (r, h2)"
    by (cases "translate_all_obj (translate_expression_obj t) ps h1")
  with same_translator_all [OF assms, of ps h1] OCurriedFunctionCall f gf show ?thesis
    by (cases rf; cases r) (auto split: sum.splits)
qed simp_all

lemma DefaultSubscriptableMapper_value:
  assumes "same_translator t g"
  shows "map_sum id (map_option value_of) (fst (DefaultSubscriptableMapper_obj e t h))
     = DefaultSubscriptableMapper (value_of e) g"
proof (cases e)
  case (OSubscriptableReference i a c k)
  obtain rc h1 where c: "t KColumn c h = (rc, h1)" by (cases "t KColumn c h")
  with assms have gc: "g KColumn (value_of c) = map_sum id value_of rc"
    by (rule same_translatorD)
  obtain rk h2 where k: "t KLiteral k h1 = (rk, h2)" by (cases "t KLiteral k h1")
  with assms have gk: "g KLiteral (value_of k) = map_sum id value_of rk"
    by (rule same_translatorD)
  from OSubscriptableReference c gc k gk show ?thesis
    by (cases rc; cases rk) auto
qed simp_all

lemma DefaultLambdaMapper_value:
  assumes "same_translator t g"
  shows "map_sum id (map_option value_of) (fst (DefaultLambdaMapper_obj e t h))
     = DefaultLambdaMapper (value_of e) g"
proof (cases e)
  case (OLambda i a ns b)
  obtain rb h1 where b: "t (kind_of (value_of b)) b h = (rb, h1)"
    by (cases "t (kind_of (value_of b)) b h")
  with assms have "g (kind_of (value_of b)) (value_of b) = map_sum id value_of rb"
    by (rule same_translatorD)
  with OLambda b show ?thesis
    by (cases rb) (auto simp: translate_expression_obj_def translate_expression_def)
qed simp_all

lemma default_rule_value:
  assumes "same_translator t g"
  shows "map_sum id value_of (fst (map_expression_obj e (default_rules_obj k) t h))
     = map_expression (value_of e) (rules_of default_rules k) g"
proof (cases k)
  case KColumn
  then show ?thesis
    by (simp add: default_rules_def DefaultColumnMapper_obj_def DefaultColumnMapper_def
        deepcopy_value split: prod.splits)
       (metis deepcopy_value(1) fst_conv)
next
  case KLiteral
  then show ?thesis
    by (simp add: default_rules_def DefaultLiteralMapper_obj_def DefaultLiteralMapper_def
        split: prod.splits)
       (metis deepcopy_value(1) fst_conv)
next
  case KArgument
  then show ?thesis
    by (simp add: default_rules_def DefaultArgumentMapper_obj_def DefaultArgumentMapper_def
        split: prod.splits)
       (metis deepcopy_value(1) fst_conv)
next
  case KFunctionCall
  obtain r h1 where r: "DefaultFunctionMapper_obj e t h = (r, h1)"
    by (cases "DefaultFunctionMapper_obj e t h")
  with DefaultFunctionMapper_value [OF assms, of e h] KFunctionCall show ?thesis
    by (cases r) (auto simp: default_rules_def split: sum.splits option.splits)
next
  case KCurriedFunctionCall
  obtain r h1 where r: "DefaultCurriedFunctionMapper_obj e t h = (r, h1)"
    by (cases "DefaultCurriedFunctionMapper_obj e t h")
  with DefaultCurriedFunctionMapper_value [OF assms, of e h] KCurriedFunctionCall show ?thesis
    by (cases r) (auto simp: default_rules_def split: sum.splits option.splits)
next
  case KSubscriptableReference
  obtain r h1 where r: "DefaultSubscriptableMapper_obj e t h = (r, h1)"
    by (cases "DefaultSubscriptableMapper_obj e t h")
  with DefaultSubscriptableMapper_value [OF assms, of e h] KSubscriptableReference show ?thesis
    by (cases r) (auto simp: default_rules_def split: sum.splits option.splits)
next
  case KLambda
  obtain r h1 where r: "DefaultLambdaMapper_obj e t h = (r, h1)"
    by (cases "DefaultLambdaMapper_obj e t h")
  with DefaultLambdaMapper_value [OF assms, of e h] KLambda show ?thesis
    by (cases r) (auto simp: default_rules_def split: sum.splits option.splits)
qed

lemma translate_obj_value:
  "same_translator (translate_obj n) (translate n (SnubaClickhouseRulesTranslator no_rules))"
proof (induction n)
  case 0
  show ?case by (simp add: same_translator_def)
next
  case (Suc n)
  have "rules_of (SnubaClickhouseRulesTranslator no_rules) k = rules_of default_rules k" for k
    by (cases k) (simp_all add: SnubaClickhouseRulesTranslator_def concat_rules_def no_rules_def)
  with default_rule_value [OF Suc] show ?case
    by (simp add: same_translator_def del: rules_of.simps)
qed


section \<open>Properties of the matcher and of the UUID column processor\<close>




lemma new_fn_params_eq:
  "new_fn_params uuid ps =
     (if list_all is_Literal ps then Some (map (parse_uuid uuid) ps) else None)"
  by (induction ps) auto

lemma process_condition_on_match:
  assumes "match_pattern (uuid_in_condition self) (NExpression (FunctionCall a op args)) = Some result"
    and "result ''formatted_uuid_column'' = Some (NExpression (Column ca t c))"
    and "result ''params'' = Some (NExpression (FunctionCall pa pn params))"
  shows "process_condition uuid self (FunctionCall a op args)
         = Inr (if list_all is_Literal params
                then FunctionCall a op
                       [Column None t c, FunctionCall pa pn (map (parse_uuid uuid) params)]
                else FunctionCall a op args)"
  using assms
  by (simp add: process_condition_def expression_def new_fn_params_eq binary_condition_def)

lemma match_any_String:
  "c \<in> set cols \<Longrightarrow> match_any (map String cols) (NScalar (VStr c)) = Some Map.empty"
  by (induction cols) auto

lemma uuid_in_condition_match:
  assumes "c \<in> set uuid_columns"
    and "op = ConditionFunctions_IN cm \<or> op = ConditionFunctions_NOT_IN cm"
  shows "match_pattern (uuid_in_condition (UUIDColumnProcessor_init cm uuid_columns))
           (NExpression (FunctionCall a op
              [FunctionCall ra ''replaceAll''
                 (FunctionCall sa ''toString'' [Column ca t (Some c)] # rest),
               FunctionCall pa ''tuple'' params]))
         = Some [''formatted_uuid_column'' \<mapsto> NExpression (Column ca t (Some c)),
                 ''params'' \<mapsto> NExpression (FunctionCall pa ''tuple'' params)]"
  using assms match_any_String [OF assms(1)]
  by (auto simp: UUIDColumnProcessor_init_def formatted_uuid_pattern_def merge_def
      optional_string_def Let_def)

text \<open>
  C6. For the processor built by \<^verbatim>\<open>__init__\<close> from a set of UUID columns, a condition
  \<^verbatim>\<open>IN\<close> or \<^verbatim>\<open>NOT IN\<close> whose left side is \<^verbatim>\<open>replaceAll(toString(column), ...)\<close> on one of
  those columns and whose right side is a call of \<^verbatim>\<open>tuple\<close>: if some parameter of the tuple
  is not a literal, \<^verbatim>\<open>process_condition\<close> returns its input; otherwise it returns the
  condition on the bare column (no alias) with \<^verbatim>\<open>parse_uuid\<close> applied to every literal,
  and \<^verbatim>\<open>parse_uuid\<close> replaces the value of a literal by the canonical string when the
  value parses and returns the literal as it is when it does not.
\<close>

theorem uuid_in_condition_rewrite:
  assumes "c \<in> set uuid_columns"
    and "op = ConditionFunctions_IN cm \<or> op = ConditionFunctions_NOT_IN cm"
  shows "process_condition uuid (UUIDColumnProcessor_init cm uuid_columns)
           (FunctionCall a op
              [FunctionCall ra ''replaceAll''
                 (FunctionCall sa ''toString'' [Column ca t (Some c)] # rest),
               FunctionCall pa ''tuple'' params])
         = Inr (if list_all is_Literal params
                then FunctionCall a op
                       [Column None t (Some c),
                        FunctionCall pa ''tuple'' (map (parse_uuid uuid) params)]
                else FunctionCall a op
                       [FunctionCall ra ''replaceAll''
                          (FunctionCall sa ''toString'' [Column ca t (Some c)] # rest),
                        FunctionCall pa ''tuple'' params])
       \<and> parse_uuid uuid (Literal la v) =
           (case uuid v of Some parsed \<Rightarrow> Literal la (VStr parsed) | None \<Rightarrow> Literal la v)"
  using process_condition_on_match [OF uuid_in_condition_match [OF assms], where uuid = uuid]
  by (simp add: parse_uuid_def)

theorem uuid_in_condition_rewrite_witness:
  "process_condition example_uuid (UUIDColumnProcessor_init example_conditions_module [''event_id''])
     (FunctionCall None ''in''
        [FunctionCall None ''replaceAll''
           [FunctionCall None ''toString'' [Column None None (Some ''event_id'')],
            Literal None (VStr ''-''), Literal None (VStr [])],
         FunctionCall None ''tuple''
           [Literal None (VStr ''a7d67cf796774551a95be6543cacd459''),
            Literal None (VStr ''abcd'')]])
   = Inr (FunctionCall None ''in''
        [Column None None (Some ''event_id''),
         FunctionCall None ''tuple''
           [Literal None (VStr ''a7d67cf7-9677-4551-a95b-e6543cacd459''),
            Literal None (VStr ''abcd'')]])"
proof -
  have c: "''event_id'' \<in> set [''event_id'']" by simp
  have o: "''in'' = ConditionFunctions_IN example_conditions_module
      \<or> ''in'' = ConditionFunctions_NOT_IN example_conditions_module"
    by (simp add: example_conditions_module_def)
  from uuid_in_condition_rewrite [OF c o, where uuid = example_uuid and a = None and ra = None
      and sa = None and ca = None and t = None and pa = None
      and rest = "[Literal None (VStr ''-''), Literal None (VStr [])]"
      and params = "[Literal None (VStr ''a7d67cf796774551a95be6543cacd459''),
                     Literal None (VStr ''abcd'')]"]
  show ?thesis
    by (simp add: parse_uuid_def example_uuid_def)
qed

section \<open>Properties of the consistency enforcer\<close>

text \<open>
  C10. With turbo set, \<^verbatim>\<open>process_query\<close> returns at once: the query is the one it was
  given and nothing was done on the way, no lookup of the replacement state included.
\<close>

theorem turbo_short_circuit:
  "get_turbo env \<Longrightarrow> process_query env query = (Inr (), query, [])"
  by (simp add: process_query_def)

theorem turbo_short_circuit_witness:
  "process_query (example_environment True True [5]) example_query = (Inr (), example_query, [])"
  using turbo_short_circuit [of "example_environment True True [5]" example_query]
  by (simp add: example_environment_def)

text \<open>
  C7. When the lookup of the replacement state is made and answers \<open>final = False\<close> with
  a non-empty list of excluded groups: if the list is longer than
  \<^verbatim>\<open>max_group_ids_exclude\<close> the decision is FINAL and no condition is added to either
  representation; otherwise the decision is not FINAL and exactly one condition,
  \<^verbatim>\<open>assumeNotNull(group_id) NOT IN tuple(ids)\<close>, is appended to the AST. When the processor
  is activated the FINAL flag of the query is set to the decision and the legacy
  representation receives its one counterpart of the condition.
\<close>

theorem consistency_enforcer_bound:
  assumes "\<not> get_turbo env"
    and "get_project_ids_in_query env query = Inr project_ids"
    and "project_ids \<noteq> []"
    and "get_projects_query_flags env project_ids = (False, exclude_group_ids)"
    and "exclude_group_ids \<noteq> []"
  shows "(case process_query env query of
           (r, query', events) \<Rightarrow>
             r = Inr () \<and>
             (if int (length exclude_group_ids) > max_group_ids_exclude env
              then fst (consistency_decision env query project_ids)
                 \<and> ast_conditions query' = ast_conditions query
                 \<and> conditions query' = conditions query
                 \<and> final query' =
                     (if consistency_enforcer_processor_enabled env then True else final query)
              else \<not> fst (consistency_decision env query project_ids)
                 \<and> ast_conditions query' = ast_conditions query @
                     [not_in_condition (conditions_names env) None
                        (FunctionCall None ''assumeNotNull'' [Column None (Some ''group_id'') None])
                        (map (\<lambda>p. Literal None (VInt p)) exclude_group_ids)]
                 \<and> conditions query' =
                     (if consistency_enforcer_processor_enabled env
                      then conditions query @ [legacy_group_condition exclude_group_ids]
                      else conditions query)
                 \<and> final query' =
                     (if consistency_enforcer_processor_enabled env then False else final query)))"
  using assms
  by (simp add: process_query_def consistency_decision_def add_condition_to_ast_def
      add_conditions_def set_final_def)

theorem consistency_enforcer_bound_witness:
  "final (fst (snd (process_query (example_environment False True [5, 6, 7]) example_query)))
   \<and> ast_conditions (fst (snd (process_query (example_environment False True [5, 6, 7])
         example_query))) = []
   \<and> conditions (fst (snd (process_query (example_environment False True [5, 6, 7])
         example_query))) = []"
proof -
  let ?env = "example_environment False True [5, 6, 7]"
  have 1: "\<not> get_turbo ?env" by (simp add: example_environment_def)
  have 2: "get_project_ids_in_query ?env example_query = Inr [1]"
    by (simp add: example_environment_def)
  have 3: "[1::int] \<noteq> []" by simp
  have 4: "get_projects_query_flags ?env [1] = (False, [5, 6, 7])"
    by (simp add: example_environment_def)
  have 5: "[5, 6, 7 :: int] \<noteq> []" by simp
  have 6: "int (length [5, 6, 7 :: int]) > max_group_ids_exclude ?env"
    by (simp add: example_environment_def)
  have 7: "consistency_enforcer_processor_enabled ?env" by (simp add: example_environment_def)
  obtain r q evs where p: "process_query ?env example_query = (r, q, evs)"
    by (cases "process_query ?env example_query") auto
  from consistency_enforcer_bound [OF 1 2 3 4 5] 6 7 p
  have "final q \<and> ast_conditions q = ast_conditions example_query
      \<and> conditions q = conditions example_query"
    by simp
  with p show ?thesis by (simp add: example_query_def)
qed

lemma shadow_mode_keeps_final_and_legacy_conditions:
  assumes "\<not> consistency_enforcer_processor_enabled env"
  shows "final (fst (snd (process_query env query))) = final query
       \<and> conditions (fst (snd (process_query env query))) = conditions query"
  using assms
  by (auto simp: process_query_def consistency_decision_def add_condition_to_ast_def
      split: sum.splits prod.splits if_splits)

text \<open>
  C8. When the processor is not activated it leaves the FINAL flag and the legacy
  conditions of the query alone, but the AST condition is added all the same: the call
  of \<^verbatim>\<open>add_condition_to_ast\<close> is outside the test of \<^verbatim>\<open>activated\<close>.
\<close>

theorem shadow_mode_adds_ast_condition:
  "process_query (example_environment False False [5]) example_query
     = (Inr (),
        example_query \<lparr> ast_conditions :=
            [FunctionCall None ''notIn''
               [FunctionCall None ''assumeNotNull'' [Column None (Some ''group_id'') None],
                FunctionCall None ''tuple'' [Literal None (VInt 5)]]] \<rparr>,
        [ReplacementStateLookup [1],
         MetricIncrement ''mismatch.group_id'' [(''extension'', ''False''), (''processor'', ''True'')],
         LogWarning ''Discrepancy between project_extension and replacement consistency processor''])
   \<and> ast_conditions example_query = []"
  by (simp add: process_query_def consistency_decision_def add_condition_to_ast_def
      example_environment_def example_query_def example_conditions_module_def
      not_in_condition_def binary_condition_def shadow_comparison_def str_bool_def)

section \<open>Properties of the transformation of conditions\<close>








text \<open>
  \<^verbatim>\<open>test_nested_simple_condition\<close>: (A = B OR A = B) AND (A = B OR A = B), the column
  \<^verbatim>\<open>c2\<close> replaced by \<^verbatim>\<open>cX\<close>; the condition then iterates to what the test expects.
\<close>

lemma nested_condition_after_transform:
  "get_expressions (snd (transform (replace_col ''c2'' (Column None (Some ''cX'') (Some ''t1'')))
      (AndCondition
         [OrCondition
            [BasicCondition (Column None (Some ''c1'') (Some ''t1'')) EQ
               (Column None (Some ''c2'') (Some ''t1'')),
             BasicCondition (Column None (Some ''c1'') (Some ''t1'')) EQ
               (Column None (Some ''c2'') (Some ''t1''))],
          OrCondition
            [BasicCondition (Column None (Some ''c1'') (Some ''t1'')) EQ
               (Column None (Some ''c2'') (Some ''t1'')),
             BasicCondition (Column None (Some ''c1'') (Some ''t1'')) EQ
               (Column None (Some ''c2'') (Some ''t1''))]])))
   = [Column None (Some ''c1'') (Some ''t1''), Column None (Some ''cX'') (Some ''t1''),
      Column None (Some ''c1'') (Some ''t1''), Column None (Some ''cX'') (Some ''t1''),
      Column None (Some ''c1'') (Some ''t1''), Column None (Some ''cX'') (Some ''t1''),
      Column None (Some ''c1'') (Some ''t1''), Column None (Some ''cX'') (Some ''t1'')]"
  by (simp add: transform_def replace_col_def)


end
